theory Spec2Isabelle
  imports Complex_Main "HOL-Library.Word"
begin

unbundle bit_operations_syntax

section \<open>Values of the JavaScript runtime\<close>

text \<open>
  A Node \<open>Buffer\<close> is a list of bytes. A key pair is the two-element array
  \<open>[encryptionKey, macKey]\<close> that \<open>createKeyPair\<close> returns: \<open>fst\<close> is
  \<open>keypair[0]\<close>, \<open>snd\<close> is \<open>keypair[1]\<close>.
\<close>

type_synonym byte = "8 word"
type_synonym buffer = "byte list"
type_synonym keypair = "buffer \<times> buffer"

text \<open>
  \<open>Error msg\<close> is \<open>new Error(msg)\<close>; the other constructors are the built-in
  error classes that the runtime itself raises.
\<close>

datatype js_error = Error string | RangeError | TypeError | SyntaxError

text \<open>
  \<open>decryptKeyData\<close> is written with an error-first callback that it calls
  synchronously. It ends in one of three ways: an exception leaves the function
  (\<open>Thrown\<close>), the callback is called with an error (\<open>Callback_err\<close>), or the
  callback is called with \<open>null\<close> and the plaintext (\<open>Callback_ok\<close>).
\<close>

datatype 'a outcome = Thrown js_error | Callback_err js_error | Callback_ok 'a

text \<open>
  The value that \<open>JSON.parse\<close> returns: \<open>null\<close>, a boolean, a number, a
  string, an array, or an object given by its properties, each name once.
\<close>

datatype json =
    JNull
  | JBool bool
  | JNum real
  | JStr string
  | JArr "json list"
  | JObj "(string \<times> json) list"

text \<open>
  The calls into Node's \<open>crypto\<close> module, in the order a run makes them.
\<close>

datatype crypto_call =
    Pbkdf2_call string buffer nat
  | Hmac_call buffer buffer
  | Decipher_call buffer buffer buffer
  | Hash_call buffer

text \<open>
  The library functions the code calls are parameters of the model:
  \<^item> \<open>pbkdf2 password salt iterations keylen\<close> is
    \<open>crypto.pbkdf2(password, salt, iterations, keylen, 'sha512', cb)\<close>, \<open>Inl\<close> when
    the callback receives an error;
  \<^item> \<open>hmac_digest key data\<close> is \<open>createHmac('sha256', key)\<close>, \<open>update(data)\<close>,
    \<open>digest()\<close>;
  \<^item> \<open>hash_digest data\<close> is \<open>createHash('sha512')\<close>, \<open>update(data)\<close>,
    \<open>digest()\<close>;
  \<^item> \<open>decipher_run key iv ciphertext\<close> is
    \<open>createDecipheriv('aes-256-cbc', key, iv)\<close>, \<open>setAutoPadding(false)\<close>,
    \<open>update(ciphertext)\<close>, \<open>final()\<close>: \<open>Inl\<close> when one of them throws, otherwise
    the buffer that \<open>update\<close> returned;
  \<^item> \<open>json_parse buf\<close> is \<open>JSON.parse(buf.toString('utf8'))\<close>, \<open>Inl\<close> when it
    throws.
\<close>

record node_api =
  pbkdf2 :: "string \<Rightarrow> buffer \<Rightarrow> nat \<Rightarrow> nat \<Rightarrow> js_error + buffer"
  hmac_digest :: "buffer \<Rightarrow> buffer \<Rightarrow> buffer"
  hash_digest :: "buffer \<Rightarrow> buffer"
  decipher_run :: "buffer \<Rightarrow> buffer \<Rightarrow> buffer \<Rightarrow> js_error + buffer"
  json_parse :: "buffer \<Rightarrow> js_error + json"

section \<open>Buffer operations\<close>

text \<open>
  \<open>Buffer.prototype.slice(start, stop)\<close>: a negative offset counts from the end, and
  every offset is clamped to the buffer. \<open>-0\<close> is \<open>0\<close>, so \<open>slice(-0)\<close> is the
  whole buffer.
\<close>

definition adjust_offset :: "int \<Rightarrow> nat \<Rightarrow> nat" where
  "adjust_offset off len =
     (if off < 0 then nat (max (off + int len) 0) else min (nat off) len)"

definition buf_slice :: "'a list \<Rightarrow> int \<Rightarrow> int \<Rightarrow> 'a list" where
  "buf_slice buf start stop =
     (let s = adjust_offset start (length buf);
          e = adjust_offset stop (length buf)
      in take (e - s) (drop s buf))"

definition buf_slice_from :: "'a list \<Rightarrow> int \<Rightarrow> 'a list" where
  "buf_slice_from buf start = drop (adjust_offset start (length buf)) buf"

text \<open>
  \<open>buf.readUInt32LE(off)\<close>: the four bytes at \<open>off\<close>, least significant first, as
  a number; a \<open>RangeError\<close> when they are not all inside the buffer.
\<close>

definition readUInt32LE :: "buffer \<Rightarrow> nat \<Rightarrow> js_error + nat" where
  "readUInt32LE buf off =
     (if off + 4 \<le> length buf
      then Inr (unat (buf ! off) + unat (buf ! (off + 1)) * 2 ^ 8
                + unat (buf ! (off + 2)) * 2 ^ 16 + unat (buf ! (off + 3)) * 2 ^ 24)
      else Inl RangeError)"

text \<open>
  JavaScript's \<open>x << k\<close>: \<open>x\<close> is converted to a 32-bit integer, shifted left by
  \<open>k\<close> modulo 32 with the high bits lost, and the result is read as signed.
\<close>

definition js_shl :: "nat \<Rightarrow> nat \<Rightarrow> int" where
  "js_shl x k = sint (push_bit (k mod 32) (word_of_nat x :: 32 word))"

text \<open>\<open>buf.toString('hex')\<close>: two lower-case hexadecimal digits per byte.\<close>

definition hex_digit :: "nat \<Rightarrow> char" where
  "hex_digit n = ''0123456789abcdef'' ! n"

definition hex_byte :: "byte \<Rightarrow> string" where
  "hex_byte b = [hex_digit (unat b div 16), hex_digit (unat b mod 16)]"

definition to_hex :: "buffer \<Rightarrow> string" where
  "to_hex buf = concat (map hex_byte buf)"

text \<open>The bytes of an ASCII string literal.\<close>

definition ascii_bytes :: "string \<Rightarrow> buffer" where
  "ascii_bytes s = map (\<lambda>c. word_of_nat (of_char c)) s"

section \<open>decryptKeyData\<close>

text \<open>
  Line 228: \<open>(data.readUInt32LE(12) << 8) + data.readUInt32LE(8)\<close>. The read at
  offset 12 comes first; each read throws on a buffer of fewer than 16 bytes.
\<close>

definition declared_length :: "buffer \<Rightarrow> js_error + int" where
  "declared_length data =
     (case readUInt32LE data 12 of
        Inl e \<Rightarrow> Inl e
      | Inr hi \<Rightarrow>
          (case readUInt32LE data 8 of
             Inl e \<Rightarrow> Inl e
           | Inr lo \<Rightarrow> Inr (js_shl hi 8 + int lo)))"

text \<open>
  The unsigned 64-bit little-endian integer stored in the eight bytes at \<open>off\<close>, which
  is what the layout comment of \<open>decryptKeyData\<close> says the length field holds.
\<close>

definition uint64_le :: "buffer \<Rightarrow> nat \<Rightarrow> nat" where
  "uint64_le buf off = (\<Sum>i < 8. unat (buf ! (off + i)) * 256 ^ i)"

text \<open>
  The function itself, with the calls it makes into \<open>crypto\<close>. The comparison of
  \<open>data.slice(0, 8).toString()\<close> with \<open>'opdata01'\<close> is a comparison of the eight
  bytes with the ASCII codes of that literal: a UTF-8 decoding is an ASCII string
  only when the bytes are that string's codes.
\<close>

definition decryptKeyData_run ::
  "node_api \<Rightarrow> keypair \<Rightarrow> buffer \<Rightarrow> bool \<Rightarrow> crypto_call list \<times> buffer outcome" where
  "decryptKeyData_run api keypair data isOpdata01 =
     (let offset = (if isOpdata01 then 16 else 0);
          check = buf_slice data 0 8
      in case declared_length data of
           Inl e \<Rightarrow> ([], Thrown e)
         | Inr len \<Rightarrow>
            (let iv = buf_slice data offset (offset + 16);
                 ciphertext = buf_slice data (offset + 16) (- 32);
                 hmacData = buf_slice data 0 (- 32);
                 hmacCheck = buf_slice_from data (- 32)
             in if isOpdata01 \<and> check \<noteq> ascii_bytes ''opdata01''
                then ([], Callback_err (Error ''Invalid OPData1 Checksum''))
                else
                  (let digest = to_hex (hmac_digest api (snd keypair) hmacData)
                   in if digest \<noteq> to_hex hmacCheck
                      then ([Hmac_call (snd keypair) hmacData],
                            Callback_err (Error ''Invalid password''))
                      else
                        (case decipher_run api (fst keypair) iv ciphertext of
                           Inl e \<Rightarrow>
                             ([Hmac_call (snd keypair) hmacData,
                               Decipher_call (fst keypair) iv ciphertext], Thrown e)
                         | Inr plaintext \<Rightarrow>
                             ([Hmac_call (snd keypair) hmacData,
                               Decipher_call (fst keypair) iv ciphertext],
                              Callback_ok (buf_slice_from plaintext (- \<bar>len\<bar>)))))))"

definition decryptKeyData :: "node_api \<Rightarrow> keypair \<Rightarrow> buffer \<Rightarrow> bool \<Rightarrow> buffer outcome" where
  "decryptKeyData api keypair data isOpdata01 =
     snd (decryptKeyData_run api keypair data isOpdata01)"

definition decryptKeyData_calls ::
  "node_api \<Rightarrow> keypair \<Rightarrow> buffer \<Rightarrow> bool \<Rightarrow> crypto_call list" where
  "decryptKeyData_calls api keypair data isOpdata01 =
     fst (decryptKeyData_run api keypair data isOpdata01)"

section \<open>createKeyPair\<close>

text \<open>
  \<open>createKeyPair(data, digest)\<close>: the data, hashed with SHA-512 first when
  \<open>digest\<close> is truthy, cut into \<open>data.slice(0, 32)\<close> and \<open>data.slice(32)\<close>.
\<close>

definition createKeyPair_run ::
  "node_api \<Rightarrow> buffer \<Rightarrow> bool \<Rightarrow> crypto_call list \<times> keypair" where
  "createKeyPair_run api data digest =
     (let hashed = (if digest then hash_digest api data else data)
      in (if digest then [Hash_call data] else [],
          (buf_slice hashed 0 32, buf_slice_from hashed 32)))"

definition createKeyPair :: "node_api \<Rightarrow> buffer \<Rightarrow> bool \<Rightarrow> keypair" where
  "createKeyPair api data digest = snd (createKeyPair_run api data digest)"

section \<open>The database\<close>

text \<open>
  The rows the three queries of the constructor read. The queries themselves are
  assumed to succeed; \<open>db.get\<close> yields no row when no profile has the name.
\<close>

record profile_row =
  profile_name :: string
  profile_id :: int
  iterations :: nat
  master_key_data :: buffer
  overview_key_data :: buffer
  salt :: buffer

record item_row =
  item_id :: int
  item_profile_id :: int
  trashed :: int
  key_data :: buffer
  overview_data :: buffer

record detail_row =
  detail_item_id :: int
  detail_data :: buffer

record database =
  profiles :: "profile_row list"
  items :: "item_row list"
  item_details :: "detail_row list"

definition db_get_profile :: "database \<Rightarrow> string \<Rightarrow> profile_row option" where
  "db_get_profile db name = find (\<lambda>row. profile_name row = name) (profiles db)"

definition db_all_items :: "database \<Rightarrow> int \<Rightarrow> item_row list" where
  "db_all_items db pid =
     filter (\<lambda>row. item_profile_id row = pid \<and> trashed row = 0) (items db)"

section \<open>The constructor of Vault\<close>

text \<open>An element of \<open>keys\<close>, and an element of \<open>this.details\<close>.\<close>

record key_entry =
  overviewDataRaw :: buffer
  overviewData :: json
  itemDataKeyPair :: keypair
  key_id :: int

record detail_entry =
  itemOverview :: key_entry
  itemDetailRaw :: "buffer option"
  itemDetail :: "json option"

text \<open>
  The instance after the constructor's promise chain has settled: \<open>this.details\<close>
  and the state of \<open>this.dbPromise\<close> (\<open>Inl\<close> rejected, \<open>Inr\<close> fulfilled).
\<close>

record vault =
  details :: "detail_entry list"
  dbPromise :: "js_error + unit"

text \<open>
  Lines 42 to 91: the key pair of the master password, then the master and the
  overview key pairs. Inside \<open>new Promise\<close> an exception and a callback error both
  reject the promise, and a rejected promise skips the \<open>then\<close> steps after it.
\<close>

definition unlock_key_hierarchy_run ::
  "node_api \<Rightarrow> string \<Rightarrow> profile_row \<Rightarrow>
     crypto_call list \<times> (js_error + keypair \<times> keypair)" where
  "unlock_key_hierarchy_run api masterPassword profileData =
     (let c0 = [Pbkdf2_call masterPassword (salt profileData) (iterations profileData)]
      in case pbkdf2 api masterPassword (salt profileData) (iterations profileData) 64 of
           Inl e \<Rightarrow> (c0, Inl e)
         | Inr key \<Rightarrow>
            (let masterPasswordKeyPair = (buf_slice key 0 32, buf_slice_from key 32);
                 r1 = decryptKeyData_run api masterPasswordKeyPair
                        (master_key_data profileData) True
             in case snd r1 of
                  Thrown e \<Rightarrow> (c0 @ fst r1, Inl e)
                | Callback_err e \<Rightarrow> (c0 @ fst r1, Inl e)
                | Callback_ok masterDataKeyData \<Rightarrow>
                   (let r2 = createKeyPair_run api masterDataKeyData True;
                        r3 = decryptKeyData_run api masterPasswordKeyPair
                               (overview_key_data profileData) True
                    in case snd r3 of
                         Thrown e \<Rightarrow> (c0 @ fst r1 @ fst r2 @ fst r3, Inl e)
                       | Callback_err e \<Rightarrow> (c0 @ fst r1 @ fst r2 @ fst r3, Inl e)
                       | Callback_ok overviewDataKeyData \<Rightarrow>
                          (let r4 = createKeyPair_run api overviewDataKeyData True
                           in (c0 @ fst r1 @ fst r2 @ fst r3 @ fst r4,
                               Inr (snd r2, snd r4))))))"

definition unlock_key_hierarchy ::
  "node_api \<Rightarrow> string \<Rightarrow> profile_row \<Rightarrow> js_error + keypair \<times> keypair" where
  "unlock_key_hierarchy api masterPassword profileData =
     snd (unlock_key_hierarchy_run api masterPassword profileData)"

definition unlock_key_hierarchy_calls ::
  "node_api \<Rightarrow> string \<Rightarrow> profile_row \<Rightarrow> crypto_call list" where
  "unlock_key_hierarchy_calls api masterPassword profileData =
     fst (unlock_key_hierarchy_run api masterPassword profileData)"

text \<open>
  Lines 107 to 137, the body of the loop over the items. An exception leaves the
  loop (\<open>Inl\<close>). On a callback error the callback returns \<open>Promise.reject(err)\<close>
  to \<open>decryptKeyData\<close>, which returns it to the loop body, where the value is
  dropped: nothing is pushed and the loop goes on (\<open>Inr None\<close>).
\<close>

definition process_item ::
  "node_api \<Rightarrow> keypair \<Rightarrow> keypair \<Rightarrow> item_row \<Rightarrow> js_error + key_entry option" where
  "process_item api overviewDataKeyPair masterDataKeyPair item =
     (case decryptKeyData api overviewDataKeyPair (overview_data item) False of
        Thrown e \<Rightarrow> Inl e
      | Callback_err e \<Rightarrow> Inr None
      | Callback_ok overviewData' \<Rightarrow>
         (case decryptKeyData api masterDataKeyPair (key_data item) False of
            Thrown e \<Rightarrow> Inl e
          | Callback_err e \<Rightarrow> Inr None
          | Callback_ok keyData \<Rightarrow>
             (let itemDataKeyPair' =
                    (if length keyData = 0 then overviewDataKeyPair
                     else createKeyPair api keyData False)
              in case json_parse api overviewData' of
                   Inl e \<Rightarrow> Inl e
                 | Inr parsed \<Rightarrow>
                     Inr (Some \<lparr>overviewDataRaw = overviewData',
                                overviewData = parsed,
                                itemDataKeyPair = itemDataKeyPair',
                                key_id = item_id item\<rparr>))))"

text \<open>Lines 103 to 140: the loop, with \<open>keys\<close> as its accumulator.\<close>

fun build_keys ::
  "node_api \<Rightarrow> keypair \<Rightarrow> keypair \<Rightarrow> item_row list \<Rightarrow> key_entry list \<Rightarrow>
     js_error + key_entry list" where
  "build_keys api okp mkp [] keys = Inr keys"
| "build_keys api okp mkp (item # rest) keys =
     (case process_item api okp mkp item of
        Inl e \<Rightarrow> Inl e
      | Inr None \<Rightarrow> build_keys api okp mkp rest keys
      | Inr (Some entry) \<Rightarrow> build_keys api okp mkp rest (keys @ [entry]))"

text \<open>
  Lines 161 to 186, the body of \<open>forEach\<close> over the item details: \<open>None\<close> when
  no element of \<open>keys\<close> has the id and nothing is done; otherwise the promise pushed
  on \<open>itemDetailsPromises\<close>, rejected (\<open>Inl\<close>) when its executor throws, fulfilled
  (\<open>Inr\<close>) with the element it pushed on \<open>this.details\<close>. A \<open>Buffer\<close> is truthy
  whatever its length, so a plaintext is always parsed.
\<close>

definition process_detail ::
  "node_api \<Rightarrow> key_entry list \<Rightarrow> detail_row \<Rightarrow> (js_error + detail_entry) option" where
  "process_detail api keys detail =
     (case find (\<lambda>key. key_id key = detail_item_id detail) keys of
        None \<Rightarrow> None
      | Some itemOverview' \<Rightarrow>
         Some (case decryptKeyData api (itemDataKeyPair itemOverview')
                      (detail_data detail) True of
                 Thrown e \<Rightarrow> Inl e
               | Callback_err e \<Rightarrow>
                   Inr \<lparr>itemOverview = itemOverview', itemDetailRaw = None,
                        itemDetail = None\<rparr>
               | Callback_ok plaintext \<Rightarrow>
                  (case json_parse api plaintext of
                     Inl e \<Rightarrow> Inl e
                   | Inr parsed \<Rightarrow>
                       Inr \<lparr>itemOverview = itemOverview',
                            itemDetailRaw = Some plaintext,
                            itemDetail = Some parsed\<rparr>)))"

text \<open>
  The \<open>forEach\<close> itself, with \<open>this.details\<close> and \<open>itemDetailsPromises\<close> as
  accumulators. A rejected promise does not stop the iteration.
\<close>

fun resolve_details ::
  "node_api \<Rightarrow> key_entry list \<Rightarrow> detail_row list \<Rightarrow>
     detail_entry list \<Rightarrow> (js_error + unit) list \<Rightarrow>
     detail_entry list \<times> (js_error + unit) list" where
  "resolve_details api keys [] ds ps = (ds, ps)"
| "resolve_details api keys (detail # rest) ds ps =
     (case process_detail api keys detail of
        None \<Rightarrow> resolve_details api keys rest ds ps
      | Some (Inl e) \<Rightarrow> resolve_details api keys rest ds (ps @ [Inl e])
      | Some (Inr entry) \<Rightarrow> resolve_details api keys rest (ds @ [entry]) (ps @ [Inr ()]))"

text \<open>
  \<open>Promise.all\<close> over promises that are already settled: rejected with the reason
  of the first rejected one, fulfilled when there is none.
\<close>

fun promise_all :: "(js_error + unit) list \<Rightarrow> js_error + unit" where
  "promise_all [] = Inr ()"
| "promise_all (Inl e # ps) = Inl e"
| "promise_all (Inr u # ps) = promise_all ps"

text \<open>Lines 155 to 190: the last step of the chain.\<close>

definition details_step :: "node_api \<Rightarrow> key_entry list \<Rightarrow> detail_row list \<Rightarrow> vault" where
  "details_step api keys itemDetails =
     (let r = resolve_details api keys itemDetails [] []
      in \<lparr>details = fst r, dbPromise = promise_all (snd r)\<rparr>)"

text \<open>
  The constructor. Without a profile row \<open>profileData\<close> is \<open>undefined\<close> and reading
  \<open>profileData.salt\<close> throws a \<open>TypeError\<close> inside the promise executor.
\<close>

definition Vault ::
  "node_api \<Rightarrow> database \<Rightarrow> string \<Rightarrow> string option \<Rightarrow> vault" where
  "Vault api db masterPassword profileName =
     (let profileName' = (case profileName of None \<Rightarrow> ''default'' | Some n \<Rightarrow> n)
      in case db_get_profile db profileName' of
           None \<Rightarrow> \<lparr>details = [], dbPromise = Inl TypeError\<rparr>
         | Some profileData \<Rightarrow>
            (case unlock_key_hierarchy api masterPassword profileData of
               Inl e \<Rightarrow> \<lparr>details = [], dbPromise = Inl e\<rparr>
             | Inr (masterDataKeyPair, overviewDataKeyPair) \<Rightarrow>
                (case build_keys api overviewDataKeyPair masterDataKeyPair
                        (db_all_items db (profile_id profileData)) [] of
                   Inl e \<Rightarrow> \<lparr>details = [], dbPromise = Inl e\<rparr>
                 | Inr keys \<Rightarrow> details_step api keys (item_details db))))"

section \<open>search\<close>

text \<open>
  \<open>detail.itemOverview.overviewData.title === title\<close>: reading a property of
  \<open>null\<close> throws a \<open>TypeError\<close>; an object gives the property's value or
  \<open>undefined\<close>, every other value gives \<open>undefined\<close>; and \<open>===\<close> with a string
  holds only for an equal string.
\<close>

definition title_matches :: "string \<Rightarrow> detail_entry \<Rightarrow> js_error + bool" where
  "title_matches title detail =
     (case overviewData (itemOverview detail) of
        JNull \<Rightarrow> Inl TypeError
      | JObj props \<Rightarrow> Inr (map_of props ''title'' = Some (JStr title))
      | _ \<Rightarrow> Inr False)"

text \<open>\<open>Array.prototype.filter\<close> with a predicate that may throw.\<close>

fun filter_details :: "string \<Rightarrow> detail_entry list \<Rightarrow> js_error + detail_entry list" where
  "filter_details title [] = Inr []"
| "filter_details title (d # ds) =
     (case title_matches title d of
        Inl e \<Rightarrow> Inl e
      | Inr keep \<Rightarrow>
         (case filter_details title ds of
            Inl e \<Rightarrow> Inl e
          | Inr rest \<Rightarrow> Inr (if keep then d # rest else rest)))"

text \<open>
  \<open>search(title)\<close>: the promise it returns, \<open>Inr items\<close> when fulfilled, \<open>Inl\<close>
  when rejected, with the reason (\<open>None\<close> for the \<open>undefined\<close> of
  \<open>Promise.reject()\<close>).
\<close>

definition search :: "vault \<Rightarrow> string \<Rightarrow> js_error option + detail_entry list" where
  "search v title =
     (case dbPromise v of
        Inl e \<Rightarrow> Inl (Some e)
      | Inr u \<Rightarrow>
         (case filter_details title (details v) of
            Inl e \<Rightarrow> Inl (Some e)
          | Inr items' \<Rightarrow> if length items' \<noteq> 0 then Inr items' else Inl None))"

text \<open>
  The \<open>title\<close> property of an entry's parsed overview, \<open>None\<close> for
  \<open>undefined\<close>: what the claims about \<open>search\<close> call the entry's title.
\<close>

definition overview_title :: "detail_entry \<Rightarrow> json option" where
  "overview_title d =
     (case overviewData (itemOverview d) of
        JObj props \<Rightarrow> map_of props ''title''
      | _ \<Rightarrow> None)"

section \<open>Building envelopes\<close>

text \<open>
  Modelled from the spec: the repository only opens envelopes, so the builder that
  the round-trip property needs (the inverse of the layout of section 4.2 of the
  spec, which is the layout in the comment of \<open>decryptKeyData\<close>) is written from
  that layout: the magic, the length of the plaintext as a 64-bit little-endian
  integer, the initialization vector, the encryption of the padding followed by the
  plaintext, and the HMAC of all of that. The cipher's encryption direction is a
  parameter, as the decryption direction is.
\<close>

definition uint64_le_bytes :: "nat \<Rightarrow> buffer" where
  "uint64_le_bytes n =
     [word_of_nat n, word_of_nat (n div 2 ^ 8), word_of_nat (n div 2 ^ 16),
      word_of_nat (n div 2 ^ 24), word_of_nat (n div 2 ^ 32), word_of_nat (n div 2 ^ 40),
      word_of_nat (n div 2 ^ 48), word_of_nat (n div 2 ^ 56)]"

definition seal_opdata01 ::
  "node_api \<Rightarrow> (buffer \<Rightarrow> buffer \<Rightarrow> buffer \<Rightarrow> buffer) \<Rightarrow> keypair \<Rightarrow>
     buffer \<Rightarrow> buffer \<Rightarrow> buffer \<Rightarrow> buffer" where
  "seal_opdata01 api encipher keypair iv padding plaintext =
     (let body = ascii_bytes ''opdata01'' @ uint64_le_bytes (length plaintext) @ iv
                 @ encipher (fst keypair) iv (padding @ plaintext)
      in body @ hmac_digest api (snd keypair) body)"

text \<open>
  Modelled from the spec: the envelope without the magic and the length field (the
  second layout of section 4.2): the initialization vector, the ciphertext and the
  HMAC of both.
\<close>

definition seal_plain ::
  "node_api \<Rightarrow> (buffer \<Rightarrow> buffer \<Rightarrow> buffer \<Rightarrow> buffer) \<Rightarrow> keypair \<Rightarrow>
     buffer \<Rightarrow> buffer \<Rightarrow> buffer" where
  "seal_plain api encipher keypair iv plaintext =
     (let body = iv @ encipher (fst keypair) iv plaintext
      in body @ hmac_digest api (snd keypair) body)"

section \<open>Sample values\<close>

text \<open>
  Small stand-ins for the library functions, and data built with them, at which the
  theorems below are instantiated. The cipher adds one to every byte and accepts
  what AES-256-CBC without padding accepts: a 32-byte key, a 16-byte vector and
  whole blocks. The parser reads the first byte only: \<open>n\<close> (110) gives
  \<open>null\<close>, \<open>G\<close> (71) an object titled \<open>Github\<close>, any other byte an
  object titled \<open>Mail\<close>.
\<close>

definition sample_encipher :: "buffer \<Rightarrow> buffer \<Rightarrow> buffer \<Rightarrow> buffer" where
  "sample_encipher key iv plaintext = map (\<lambda>b. b + 1) plaintext"

definition sample_api :: node_api where
  "sample_api =
     \<lparr>pbkdf2 = (\<lambda>password salt' iters keylen.
                  Inr (replicate keylen (word_of_nat (length password)))),
      hmac_digest = (\<lambda>key data. replicate 32 (sum_list key + sum_list data)),
      hash_digest = (\<lambda>data. replicate 64 (sum_list data)),
      decipher_run = (\<lambda>key iv ciphertext.
                  if length key = 32 \<and> length iv = 16 \<and> length ciphertext mod 16 = 0
                  then Inr (map (\<lambda>b. b - 1) ciphertext)
                  else Inl (Error ''bad decrypt'')),
      json_parse = (\<lambda>buf. case buf of
                    [] \<Rightarrow> Inl SyntaxError
                  | b # bs \<Rightarrow>
                      Inr (if b = 110 then JNull
                           else JObj [(''title'',
                                       JStr (if b = 71 then ''Github'' else ''Mail''))]))\<rparr>"

definition sample_keypair :: keypair where
  "sample_keypair = (replicate 32 1, replicate 32 2)"

definition sample_iv :: buffer where
  "sample_iv = replicate 16 0"

text \<open>An envelope whose length field holds \<open>2 ^ 32\<close>: byte 12 is 1, the others are 0.\<close>

definition length_field_sample :: buffer where
  "length_field_sample =
     ascii_bytes ''opdata01'' @ [0, 0, 0, 0, 1, 0, 0, 0] @ replicate 48 0"

definition sample_padding :: buffer where
  "sample_padding = replicate 16 9"

text \<open>
  A profile for the password \<open>hunter2\<close>, whose derived key is 64 bytes of 7. The
  master key material is eight bytes of 3 and the overview key material four bytes
  of 5, so the two key pairs are the halves of 64 bytes of 24 and of 64 bytes of 20.
\<close>

definition sample_password :: string where
  "sample_password = ''hunter2''"

definition sample_top_keypair :: keypair where
  "sample_top_keypair = (replicate 32 7, replicate 32 7)"

definition sample_master_keypair :: keypair where
  "sample_master_keypair = (replicate 32 24, replicate 32 24)"

definition sample_overview_keypair :: keypair where
  "sample_overview_keypair = (replicate 32 20, replicate 32 20)"

definition sample_profile :: profile_row where
  "sample_profile =
     \<lparr>profile_name = ''default'', profile_id = 1, iterations = 2,
      master_key_data =
        seal_opdata01 sample_api sample_encipher sample_top_keypair sample_iv
          (replicate 8 9) (replicate 8 3),
      overview_key_data =
        seal_opdata01 sample_api sample_encipher sample_top_keypair sample_iv
          (replicate 12 9) (replicate 4 5),
      salt = replicate 16 0\<rparr>"

text \<open>
  Buffers for the magic and the HMAC checks: a 12-byte buffer whose first eight bytes
  are not the magic, the magic alone, and two 64-byte envelopes with a zero tag, the
  first with a wrong magic and the second with the right one.
\<close>

definition short_envelope :: buffer where
  "short_envelope = ascii_bytes ''opdata02'' @ [0, 0, 0, 0]"

definition bare_magic :: buffer where
  "bare_magic = ascii_bytes ''opdata01''"

definition bad_magic_envelope :: buffer where
  "bad_magic_envelope = ascii_bytes ''opdata02'' @ replicate 56 0"

definition bad_tag_envelope :: buffer where
  "bad_tag_envelope = ascii_bytes ''opdata01'' @ replicate 56 0"

text \<open>
  Items of the sample profile, sealed without the magic under the overview and the
  master key pairs. The vector is all zero, so the length that \<open>decryptKeyData\<close>
  reads from bytes 8 to 16 is 0. Item 1 carries 64 bytes of key material and the
  title \<open>Github\<close>; item 2 carries empty key material and the title \<open>Mail\<close>;
  item 3 has an overview whose tag is wrong; item 4 is item 1 under another id.
\<close>

definition sample_item_1 :: item_row where
  "sample_item_1 =
     \<lparr>item_id = 1, item_profile_id = 1, trashed = 0,
      key_data = seal_plain sample_api sample_encipher sample_master_keypair sample_iv
                   (replicate 64 4),
      overview_data = seal_plain sample_api sample_encipher sample_overview_keypair
                        sample_iv (71 # replicate 15 0)\<rparr>"

definition sample_item_2 :: item_row where
  "sample_item_2 =
     \<lparr>item_id = 2, item_profile_id = 1, trashed = 0,
      key_data = seal_plain sample_api sample_encipher sample_master_keypair sample_iv [],
      overview_data = seal_plain sample_api sample_encipher sample_overview_keypair
                        sample_iv (77 # replicate 15 0)\<rparr>"

definition sample_item_3 :: item_row where
  "sample_item_3 =
     \<lparr>item_id = 3, item_profile_id = 1, trashed = 0,
      key_data = seal_plain sample_api sample_encipher sample_master_keypair sample_iv [],
      overview_data = replicate 64 0\<rparr>"

definition sample_item_4 :: item_row where
  "sample_item_4 = sample_item_1\<lparr>item_id := 4\<rparr>"

text \<open>The elements of \<open>keys\<close> that items 1, 2 and 4 give.\<close>

definition sample_key_1 :: key_entry where
  "sample_key_1 =
     \<lparr>overviewDataRaw = 71 # replicate 15 0,
      overviewData = JObj [(''title'', JStr ''Github'')],
      itemDataKeyPair = (replicate 32 4, replicate 32 4),
      key_id = 1\<rparr>"

definition sample_key_2 :: key_entry where
  "sample_key_2 =
     \<lparr>overviewDataRaw = 77 # replicate 15 0,
      overviewData = JObj [(''title'', JStr ''Mail'')],
      itemDataKeyPair = sample_overview_keypair,
      key_id = 2\<rparr>"

definition sample_key_4 :: key_entry where
  "sample_key_4 = sample_key_1\<lparr>key_id := 4\<rparr>"

text \<open>
  Item details: one that opens under the key pair of item 1, one for an id that no
  item has, one for item 2 whose tag is wrong, and one for item 1 that is empty.
\<close>

definition sample_detail_1 :: detail_row where
  "sample_detail_1 =
     \<lparr>detail_item_id = 1,
      detail_data = seal_opdata01 sample_api sample_encipher
                      (replicate 32 4, replicate 32 4) sample_iv
                      (replicate 11 9) (replicate 5 1)\<rparr>"

definition sample_detail_orphan :: detail_row where
  "sample_detail_orphan = \<lparr>detail_item_id = 99, detail_data = []\<rparr>"

definition sample_detail_bad_tag :: detail_row where
  "sample_detail_bad_tag = \<lparr>detail_item_id = 2, detail_data = bad_tag_envelope\<rparr>"

definition sample_detail_empty :: detail_row where
  "sample_detail_empty = \<lparr>detail_item_id = 1, detail_data = []\<rparr>"

text \<open>The elements of \<open>this.details\<close> that the first and the third of them give.\<close>

definition sample_entry_1 :: detail_entry where
  "sample_entry_1 =
     \<lparr>itemOverview = sample_key_1,
      itemDetailRaw = Some (replicate 5 1),
      itemDetail = Some (JObj [(''title'', JStr ''Mail'')])\<rparr>"

definition sample_entry_2 :: detail_entry where
  "sample_entry_2 =
     \<lparr>itemOverview = sample_key_2, itemDetailRaw = None, itemDetail = None\<rparr>"

definition sample_database :: database where
  "sample_database =
     \<lparr>profiles = [sample_profile],
      items = [sample_item_1, sample_item_3, sample_item_2, sample_item_4],
      item_details = [sample_detail_1, sample_detail_orphan, sample_detail_bad_tag,
                      sample_detail_1]\<rparr>"

text \<open>A vault state for \<open>search\<close>, with titles that differ by case and by a space.\<close>

definition titled :: "string \<Rightarrow> detail_entry" where
  "titled t =
     \<lparr>itemOverview = \<lparr>overviewDataRaw = [], overviewData = JObj [(''title'', JStr t)],
                      itemDataKeyPair = sample_keypair, key_id = 0\<rparr>,
      itemDetailRaw = None, itemDetail = None\<rparr>"

definition sample_vault :: vault where
  "sample_vault =
     \<lparr>details = [titled ''Github'', titled ''github'', titled ''Github '', titled ''Github''],
      dbPromise = Inr ()\<rparr>"

text \<open>
  A database whose second item has the overview \<open>null\<close> and empty key material,
  with a detail record for each item: the one of item 1 opens, the one of item 5 has
  a wrong tag. With them, the element of \<open>keys\<close> and the element of
  \<open>this.details\<close> that item 5 gives.
\<close>

definition sample_item_null :: item_row where
  "sample_item_null =
     \<lparr>item_id = 5, item_profile_id = 1, trashed = 0,
      key_data = seal_plain sample_api sample_encipher sample_master_keypair sample_iv [],
      overview_data = seal_plain sample_api sample_encipher sample_overview_keypair
                        sample_iv (110 # replicate 15 0)\<rparr>"

definition sample_key_null :: key_entry where
  "sample_key_null =
     \<lparr>overviewDataRaw = 110 # replicate 15 0,
      overviewData = JNull,
      itemDataKeyPair = sample_overview_keypair,
      key_id = 5\<rparr>"

definition sample_detail_null :: detail_row where
  "sample_detail_null = \<lparr>detail_item_id = 5, detail_data = bad_tag_envelope\<rparr>"

definition sample_entry_null :: detail_entry where
  "sample_entry_null =
     \<lparr>itemOverview = sample_key_null, itemDetailRaw = None, itemDetail = None\<rparr>"

definition null_overview_database :: database where
  "null_overview_database =
     \<lparr>profiles = [sample_profile],
      items = [sample_item_1, sample_item_null],
      item_details = [sample_detail_1, sample_detail_null]\<rparr>"

section \<open>Buffers\<close>

lemma hex_digit_inj: "m < 16 \<Longrightarrow> n < 16 \<Longrightarrow> hex_digit m = hex_digit n \<longleftrightarrow> m = n"
proof -
  have d: "distinct ''0123456789abcdef''" by simp
  assume "m < 16" "n < 16"
  then show ?thesis
    unfolding hex_digit_def using d by (simp add: nth_eq_iff_index_eq)
qed

lemma hex_byte_inj: "hex_byte a = hex_byte b \<longleftrightarrow> a = b"
proof
  assume h: "hex_byte a = hex_byte b"
  have la: "unat a < 256" using unsigned_less [of a] by simp
  have lb: "unat b < 256" using unsigned_less [of b] by simp
  from la have da: "unat a div 16 < 16" by simp
  from lb have db: "unat b div 16 < 16" by simp
  from h have "hex_digit (unat a div 16) = hex_digit (unat b div 16)"
    and "hex_digit (unat a mod 16) = hex_digit (unat b mod 16)"
    by (simp_all add: hex_byte_def)
  then have "unat a div 16 = unat b div 16" and "unat a mod 16 = unat b mod 16"
    using da db by (simp_all add: hex_digit_inj)
  then have "unat a = unat b"
    by (metis div_mult_mod_eq)
  then show "a = b" by (simp add: word_unat_eq_iff)
qed simp

text \<open>Two buffers have the same hexadecimal rendering only when they are equal.\<close>

lemma to_hex_inj: "to_hex xs = to_hex ys \<longleftrightarrow> xs = ys"
proof (induction xs arbitrary: ys)
  case Nil
  then show ?case by (cases ys) (simp_all add: to_hex_def hex_byte_def)
next
  case (Cons x xs)
  show ?case
  proof (cases ys)
    case Nil
    then show ?thesis by (simp add: to_hex_def hex_byte_def)
  next
    case (Cons y ys')
    have "to_hex (x # xs) = to_hex (y # ys') \<longleftrightarrow>
            hex_byte x = hex_byte y \<and> to_hex xs = to_hex ys'"
      by (auto simp: to_hex_def hex_byte_def)
    then show ?thesis using Cons Cons.IH [of ys'] by (simp add: hex_byte_inj)
  qed
qed

lemma adjust_offset_nonneg: "0 \<le> off \<Longrightarrow> adjust_offset off len = min (nat off) len"
  by (simp add: adjust_offset_def)

lemma adjust_offset_neg: "off < 0 \<Longrightarrow> adjust_offset off len = len - nat (- off)"
  unfolding adjust_offset_def by (simp add: max_def) arith

lemma buf_slice_prefix: "0 \<le> n \<Longrightarrow> buf_slice xs 0 n = take (nat n) xs"
  by (simp add: buf_slice_def adjust_offset_nonneg min_def)

lemma buf_slice_between:
  "0 \<le> a \<Longrightarrow> 0 \<le> b \<Longrightarrow> buf_slice xs a b = take (nat b - nat a) (drop (nat a) xs)"
  by (simp add: buf_slice_def adjust_offset_nonneg min_def Let_def)

lemma buf_slice_to_tail:
  "0 \<le> a \<Longrightarrow> 0 < k \<Longrightarrow>
     buf_slice xs a (- k) = take (length xs - nat k - nat a) (drop (nat a) xs)"
  by (simp add: buf_slice_def adjust_offset_nonneg adjust_offset_neg min_def Let_def)

lemma buf_slice_from_tail: "0 < k \<Longrightarrow> buf_slice_from xs (- k) = drop (length xs - nat k) xs"
  by (simp add: buf_slice_from_def adjust_offset_neg)

lemma buf_slice_from_zero: "buf_slice_from xs 0 = xs"
  by (simp add: buf_slice_from_def adjust_offset_def)

lemma buf_slice_from_nonneg: "0 \<le> a \<Longrightarrow> buf_slice_from xs a = drop (nat a) xs"
  by (simp add: buf_slice_from_def adjust_offset_nonneg min_def)

lemma length_magic: "length (ascii_bytes ''opdata01'') = 8"
  by (simp add: ascii_bytes_def)

lemma length_uint64_le_bytes: "length (uint64_le_bytes n) = 8"
  by (simp add: uint64_le_bytes_def)

lemma unat_byte_of_nat: "unat (word_of_nat n :: byte) = n mod 256"
  by (simp add: unat_of_nat)

section \<open>The steps of decryptKeyData\<close>

lemma declared_length_short: "length data < 16 \<Longrightarrow> declared_length data = Inl RangeError"
  by (simp add: declared_length_def readUInt32LE_def)

lemma declared_length_long: "16 \<le> length data \<Longrightarrow> \<exists>len. declared_length data = Inr len"
  by (simp add: declared_length_def readUInt32LE_def)

lemma declared_length_prefix:
  "16 \<le> length iv \<Longrightarrow> declared_length (iv @ rest) = declared_length iv"
  by (simp add: declared_length_def readUInt32LE_def nth_append)

lemma decryptKeyData_run_short:
  "length data < 16 \<Longrightarrow> decryptKeyData_run api kp data b = ([], Thrown RangeError)"
  by (simp add: decryptKeyData_run_def declared_length_short)

text \<open>
  On a buffer of at least 16 bytes the function is its three steps (magic, HMAC,
  cipher), with every \<open>slice\<close> written as \<open>take\<close> and \<open>drop\<close>.
\<close>

lemma decryptKeyData_run_long:
  assumes "declared_length data = Inr len"
  shows "decryptKeyData_run api kp data b =
     (let off = (if b then 16 else 0);
          iv = take 16 (drop off data);
          ciphertext = take (length data - 32 - (off + 16)) (drop (off + 16) data);
          hmacData = take (length data - 32) data;
          hmacCheck = drop (length data - 32) data
      in if b \<and> take 8 data \<noteq> ascii_bytes ''opdata01''
         then ([], Callback_err (Error ''Invalid OPData1 Checksum''))
         else if hmac_digest api (snd kp) hmacData \<noteq> hmacCheck
         then ([Hmac_call (snd kp) hmacData], Callback_err (Error ''Invalid password''))
         else (case decipher_run api (fst kp) iv ciphertext of
                 Inl e \<Rightarrow>
                   ([Hmac_call (snd kp) hmacData, Decipher_call (fst kp) iv ciphertext],
                    Thrown e)
               | Inr plaintext \<Rightarrow>
                   ([Hmac_call (snd kp) hmacData, Decipher_call (fst kp) iv ciphertext],
                    Callback_ok (buf_slice_from plaintext (- \<bar>len\<bar>)))))"
  using assms
  by (cases b)
     (simp_all add: decryptKeyData_run_def Let_def to_hex_inj buf_slice_prefix
        buf_slice_between buf_slice_to_tail buf_slice_from_tail split: sum.split)

text \<open>
  A tag that is not the HMAC of the bytes before it, on an envelope that passed the
  magic check or has none.
\<close>

lemma decryptKeyData_run_bad_tag:
  assumes "isOpdata01 \<longrightarrow> take 8 data = ascii_bytes ''opdata01''"
    and "hmac_digest api (snd keypair) (take (length data - 32) data)
           \<noteq> drop (length data - 32) data"
  shows "decryptKeyData_run api keypair data isOpdata01 =
      (if length data < 16 then ([], Thrown RangeError)
       else ([Hmac_call (snd keypair) (take (length data - 32) data)],
             Callback_err (Error ''Invalid password'')))"
proof (cases "length data < 16")
  case True
  then show ?thesis by (simp add: decryptKeyData_run_short)
next
  case False
  then obtain len where "declared_length data = Inr len"
    using declared_length_long [of data] by auto
  then show ?thesis using assms False
    by (simp add: decryptKeyData_run_long Let_def)
qed

lemma createKeyPair_plain:
  "createKeyPair api data False = (take 32 data, drop 32 data)"
  by (simp add: createKeyPair_def createKeyPair_run_def buf_slice_prefix buf_slice_from_nonneg)

section \<open>Sealed envelopes\<close>

text \<open>The four low base-256 digits of a number below \<open>2 ^ 32\<close> give it back.\<close>

lemma le32_digits:
  fixes n :: nat
  assumes "n < 2 ^ 32"
  shows "n mod 256 + n div 256 mod 256 * 256 + n div 65536 mod 256 * 65536
       + n div 16777216 * 16777216 = n"
proof -
  define q1 where "q1 = n div 256"
  define q2 where "q2 = q1 div 256"
  define q3 where "q3 = q2 div 256"
  have e2: "n div 65536 = q2"
    unfolding q2_def q1_def by (simp add: div_mult2_eq)
  have e3: "n div 16777216 = q3"
    unfolding q3_def q2_def q1_def by (simp add: div_mult2_eq)
  have a: "n = n mod 256 + 256 * q1"
    unfolding q1_def by simp
  have b: "q1 = q1 mod 256 + 256 * q2"
    unfolding q2_def by simp
  have c: "q2 = q2 mod 256 + 256 * q3"
    unfolding q3_def by simp
  have "n mod 256 + q1 mod 256 * 256 + q2 mod 256 * 65536 + q3 * 16777216 = n"
    using a b c by linarith
  then show ?thesis
    using e2 e3 by (simp add: q1_def)
qed

lemma declared_length_sealed:
  assumes "n < 2 ^ 32"
  shows "declared_length (ascii_bytes ''opdata01'' @ uint64_le_bytes n @ rest) = Inr (int n)"
proof -
  have hi: "n div 2 ^ 32 = 0" "n div 2 ^ 40 = 0" "n div 2 ^ 48 = 0" "n div 2 ^ 56 = 0"
    using assms by simp_all
  have "readUInt32LE (ascii_bytes ''opdata01'' @ uint64_le_bytes n @ rest) 12 = Inr 0"
    using hi by (simp add: readUInt32LE_def ascii_bytes_def uint64_le_bytes_def)
  moreover have "readUInt32LE (ascii_bytes ''opdata01'' @ uint64_le_bytes n @ rest) 8 = Inr n"
    using le32_digits [OF assms] hi
    by (simp add: readUInt32LE_def ascii_bytes_def uint64_le_bytes_def unat_byte_of_nat)
  ultimately show ?thesis
    by (simp add: declared_length_def js_shl_def)
qed

text \<open>
  Opening what \<open>seal_opdata01\<close> built, for a plaintext shorter than \<open>2 ^ 32\<close>
  bytes: the plaintext when it is not empty. For the empty plaintext the length
  field is 0, \<open>plaintext.slice(-0)\<close> keeps everything, and the result is the
  padding.
\<close>

lemma opdata01_opens:
  assumes iv: "length iv = 16"
    and tag: "\<And>k d. length (hmac_digest api k d) = 32"
    and dec: "decipher_run api (fst K) iv (encipher (fst K) iv (padding @ P)) = Inr (padding @ P)"
    and len: "length P < 2 ^ 32"
  shows "decryptKeyData api K (seal_opdata01 api encipher K iv padding P) True =
           Callback_ok (if P = [] then padding else P)"
proof -
  define ct where "ct = encipher (fst K) iv (padding @ P)"
  define body where "body = ascii_bytes ''opdata01'' @ uint64_le_bytes (length P) @ iv @ ct"
  define data where "data = body @ hmac_digest api (snd K) body"
  have sealed: "seal_opdata01 api encipher K iv padding P = data"
    by (simp add: seal_opdata01_def data_def body_def ct_def Let_def)
  have lb: "length body = 32 + length ct"
    by (simp add: body_def length_magic length_uint64_le_bytes iv)
  have ld: "length data = length body + 32"
    by (simp add: data_def tag)
  have dl: "declared_length data = Inr (int (length P))"
    unfolding data_def body_def using declared_length_sealed [OF len] by simp
  have magic: "take 8 data = ascii_bytes ''opdata01''"
    by (simp add: data_def body_def length_magic)
  have hd: "take (length data - 32) data = body"
    by (simp add: ld) (simp add: data_def)
  have hc: "drop (length data - 32) data = hmac_digest api (snd K) body"
    by (simp add: ld) (simp add: data_def)
  have v: "take 16 (drop 16 data) = iv"
    by (simp add: data_def body_def length_magic length_uint64_le_bytes iv)
  have c: "take (length data - 32 - (16 + 16)) (drop (16 + 16) data) = ct"
    by (simp add: ld lb) (simp add: data_def body_def length_magic length_uint64_le_bytes iv)
  have "decryptKeyData api K data True =
          Callback_ok (buf_slice_from (padding @ P) (- \<bar>int (length P)\<bar>))"
    using magic hd hc v c dec
    by (simp add: decryptKeyData_def decryptKeyData_run_long [OF dl] Let_def ct_def)
  moreover have "buf_slice_from (padding @ P) (- \<bar>int (length P)\<bar>) =
      (if P = [] then padding else P)"
    by (simp add: buf_slice_from_zero buf_slice_from_tail)
  ultimately show ?thesis by (simp add: sealed)
qed

text \<open>
  Opening what \<open>seal_plain\<close> built: the length is read from bytes 8 to 16 of the
  initialization vector, and the last that many bytes of the plaintext are kept.
\<close>

lemma plain_opens:
  assumes iv: "length iv = 16"
    and tag: "\<And>k d. length (hmac_digest api k d) = 32"
    and dec: "decipher_run api (fst K) iv (encipher (fst K) iv P) = Inr P"
    and dl: "declared_length iv = Inr len"
  shows "decryptKeyData api K (seal_plain api encipher K iv P) False =
           Callback_ok (buf_slice_from P (- \<bar>len\<bar>))"
proof -
  define ct where "ct = encipher (fst K) iv P"
  define body where "body = iv @ ct"
  define data where "data = body @ hmac_digest api (snd K) body"
  have sealed: "seal_plain api encipher K iv P = data"
    by (simp add: seal_plain_def data_def body_def ct_def Let_def)
  have lb: "length body = 16 + length ct"
    by (simp add: body_def iv)
  have ld: "length data = length body + 32"
    by (simp add: data_def tag)
  have dl': "declared_length data = Inr len"
    unfolding data_def body_def using declared_length_prefix [of iv] iv dl by simp
  have hd: "take (length data - 32) data = body"
    by (simp add: ld) (simp add: data_def)
  have hc: "drop (length data - 32) data = hmac_digest api (snd K) body"
    by (simp add: ld) (simp add: data_def)
  have v: "take 16 (drop 0 data) = iv"
    by (simp add: data_def body_def iv)
  have c: "take (length data - 32 - (0 + 16)) (drop (0 + 16) data) = ct"
    by (simp add: ld lb) (simp add: data_def body_def iv)
  have "decryptKeyData api K data False = Callback_ok (buf_slice_from P (- \<bar>len\<bar>))"
    using hd hc v c dec
    by (simp add: decryptKeyData_def decryptKeyData_run_long [OF dl'] Let_def ct_def)
  then show ?thesis by (simp add: sealed)
qed

section \<open>The promise chain\<close>

lemma unlock_key_hierarchy_run_unfold:
  assumes "pbkdf2 api pw (salt p) (iterations p) 64 = Inr key"
  shows "unlock_key_hierarchy_run api pw p =
     (let c0 = [Pbkdf2_call pw (salt p) (iterations p)];
          top = (take 32 key, drop 32 key);
          r1 = decryptKeyData_run api top (master_key_data p) True
      in case snd r1 of
           Thrown e \<Rightarrow> (c0 @ fst r1, Inl e)
         | Callback_err e \<Rightarrow> (c0 @ fst r1, Inl e)
         | Callback_ok masterRaw \<Rightarrow>
            (let r3 = decryptKeyData_run api top (overview_key_data p) True
             in case snd r3 of
                  Thrown e \<Rightarrow> (c0 @ fst r1 @ [Hash_call masterRaw] @ fst r3, Inl e)
                | Callback_err e \<Rightarrow> (c0 @ fst r1 @ [Hash_call masterRaw] @ fst r3, Inl e)
                | Callback_ok overviewRaw \<Rightarrow>
                    (c0 @ fst r1 @ [Hash_call masterRaw] @ fst r3 @ [Hash_call overviewRaw],
                     Inr ((take 32 (hash_digest api masterRaw),
                           drop 32 (hash_digest api masterRaw)),
                          (take 32 (hash_digest api overviewRaw),
                           drop 32 (hash_digest api overviewRaw))))))"
  using assms
  by (simp add: unlock_key_hierarchy_run_def createKeyPair_run_def Let_def
      buf_slice_prefix buf_slice_from_nonneg split: outcome.split)

lemma build_keys_append:
  "build_keys api okp mkp (xs @ ys) keys =
     (case build_keys api okp mkp xs keys of
        Inl e \<Rightarrow> Inl e
      | Inr ks \<Rightarrow> build_keys api okp mkp ys ks)"
  by (induction xs arbitrary: keys) (simp_all split: sum.split option.split)

text \<open>
  The loop over the item details, cut at any point: the accumulators only grow, and
  \<open>Promise.all\<close> is rejected by the first rejected promise.
\<close>

lemma resolve_details_acc:
  "resolve_details api keys rows ds ps =
     (ds @ fst (resolve_details api keys rows [] []),
      ps @ snd (resolve_details api keys rows [] []))"
proof (induction rows arbitrary: ds ps)
  case Nil
  then show ?case by simp
next
  case (Cons r rows)
  show ?case
  proof (cases "process_detail api keys r")
    case None
    then show ?thesis using Cons.IH [of ds ps] by simp
  next
    case (Some res)
    show ?thesis
    proof (cases res)
      case (Inl e)
      then show ?thesis
        using Some Cons.IH [of ds "ps @ [Inl e]"] Cons.IH [of "[]" "[Inl e]"] by simp
    next
      case (Inr d)
      then show ?thesis
        using Some Cons.IH [of "ds @ [d]" "ps @ [Inr ()]"] Cons.IH [of "[d]" "[Inr ()]"]
        by simp
    qed
  qed
qed

lemma resolve_details_append:
  "resolve_details api keys (xs @ ys) ds ps =
     resolve_details api keys ys (fst (resolve_details api keys xs ds ps))
       (snd (resolve_details api keys xs ds ps))"
  by (induction xs arbitrary: ds ps) (simp_all split: option.split sum.split)

lemma promise_all_append:
  "promise_all (ps @ qs) = (case promise_all ps of Inl e \<Rightarrow> Inl e | Inr u \<Rightarrow> promise_all qs)"
  by (induction ps rule: promise_all.induct) simp_all

lemma details_step_append:
  "details (details_step api keys (xs @ ys)) =
     details (details_step api keys xs) @ details (details_step api keys ys)"
  "dbPromise (details_step api keys (xs @ ys)) =
     (case dbPromise (details_step api keys xs) of
        Inl e \<Rightarrow> Inl e
      | Inr u \<Rightarrow> dbPromise (details_step api keys ys))"
proof -
  let ?x = "resolve_details api keys xs [] []"
  have "resolve_details api keys (xs @ ys) [] [] =
      (fst ?x @ fst (resolve_details api keys ys [] []),
       snd ?x @ snd (resolve_details api keys ys [] []))"
    using resolve_details_append [of api keys xs ys "[]" "[]"]
      resolve_details_acc [of api keys ys "fst ?x" "snd ?x"] by simp
  then show "details (details_step api keys (xs @ ys)) =
     details (details_step api keys xs) @ details (details_step api keys ys)"
    and "dbPromise (details_step api keys (xs @ ys)) =
     (case dbPromise (details_step api keys xs) of
        Inl e \<Rightarrow> Inl e
      | Inr u \<Rightarrow> dbPromise (details_step api keys ys))"
    by (simp_all add: details_step_def promise_all_append Let_def split: sum.split)
qed

lemma details_step_single:
  "details_step api keys [r] =
     (case process_detail api keys r of
        None \<Rightarrow> \<lparr>details = [], dbPromise = Inr ()\<rparr>
      | Some (Inl e) \<Rightarrow> \<lparr>details = [], dbPromise = Inl e\<rparr>
      | Some (Inr d) \<Rightarrow> \<lparr>details = [d], dbPromise = Inr ()\<rparr>)"
  by (simp add: details_step_def split: option.split sum.split)

lemma details_step_Cons:
  "details (details_step api keys (r # rows)) =
     details (details_step api keys [r]) @ details (details_step api keys rows)"
  "dbPromise (details_step api keys (r # rows)) =
     (case dbPromise (details_step api keys [r]) of
        Inl e \<Rightarrow> Inl e
      | Inr u \<Rightarrow> dbPromise (details_step api keys rows))"
  using details_step_append [of api keys "[r]" rows] by simp_all

lemma details_step_insert:
  "details (details_step api keys (before @ r # rest)) =
     details (details_step api keys before) @ details (details_step api keys [r])
       @ details (details_step api keys rest)"
  "dbPromise (details_step api keys (before @ r # rest)) =
     (case dbPromise (details_step api keys before) of
        Inl e \<Rightarrow> Inl e
      | Inr u \<Rightarrow>
         (case dbPromise (details_step api keys [r]) of
            Inl e \<Rightarrow> Inl e
          | Inr u \<Rightarrow> dbPromise (details_step api keys rest)))"
  by (simp_all add: details_step_append [of api keys before "r # rest"]
      details_step_Cons [of api keys r rest] split: sum.split)

lemma process_detail_None:
  "process_detail api keys r = None \<longleftrightarrow> (\<forall>k \<in> set keys. key_id k \<noteq> detail_item_id r)"
proof -
  have "process_detail api keys r = None \<longleftrightarrow>
      find (\<lambda>key. key_id key = detail_item_id r) keys = None"
    by (simp add: process_detail_def split: option.split)
  then show ?thesis by (auto simp: find_None_iff)
qed

lemma process_detail_pushed:
  assumes "process_detail api keys r = Some (Inr d)"
  shows "itemOverview d \<in> set keys \<and> key_id (itemOverview d) = detail_item_id r"
proof -
  from assms obtain k where k: "find (\<lambda>key. key_id key = detail_item_id r) keys = Some k"
    by (auto simp: process_detail_def split: option.splits)
  then have "k \<in> set keys \<and> key_id k = detail_item_id r"
    by (auto simp: find_Some_iff)
  moreover have "itemOverview d = k"
    using assms k
    by (auto simp: process_detail_def split: outcome.splits sum.splits)
  ultimately show ?thesis by simp
qed

lemma process_detail_callback_err:
  assumes "find (\<lambda>key. key_id key = detail_item_id r) keys = Some k"
    and "decryptKeyData api (itemDataKeyPair k) (detail_data r) True = Callback_err e"
  shows "process_detail api keys r =
     Some (Inr \<lparr>itemOverview = k, itemDetailRaw = None, itemDetail = None\<rparr>)"
  using assms by (simp add: process_detail_def)

lemma process_detail_thrown:
  assumes "find (\<lambda>key. key_id key = detail_item_id r) keys = Some k"
    and "decryptKeyData api (itemDataKeyPair k) (detail_data r) True = Thrown e"
  shows "process_detail api keys r = Some (Inl e)"
  using assms by (simp add: process_detail_def)

text \<open>An exception while a detail is opened rejects the promise of the constructor.\<close>

lemma thrown_detail_rejects:
  assumes "find (\<lambda>key. key_id key = detail_item_id r) keys = Some k"
    and "decryptKeyData api (itemDataKeyPair k) (detail_data r) True = Thrown e"
    and "dbPromise (details_step api keys before) = Inr ()"
  shows "dbPromise (details_step api keys (before @ r # rest)) = Inl e"
  using assms(3) process_detail_thrown [OF assms(1,2)]
  by (simp add: details_step_insert(2) [of api keys before r rest] details_step_single)

lemma details_step_count:
  assumes "dbPromise (details_step api keys rows) = Inr ()"
  shows "length (filter (\<lambda>d. key_id (itemOverview d) = i) (details (details_step api keys rows)))
       = (if i \<in> key_id ` set keys then length (filter (\<lambda>r. detail_item_id r = i) rows) else 0)"
  using assms
proof (induction rows)
  case Nil
  then show ?case by (simp add: details_step_def)
next
  case (Cons r rows)
  from Cons.prems have one: "dbPromise (details_step api keys [r]) = Inr ()"
    and more: "dbPromise (details_step api keys rows) = Inr ()"
    by (auto simp: details_step_Cons(2) [of api keys r rows] split: sum.splits)
  note ih = Cons.IH [OF more]
  show ?case
  proof (cases "process_detail api keys r")
    case None
    then have "\<forall>k \<in> set keys. key_id k \<noteq> detail_item_id r"
      by (simp add: process_detail_None)
    then have "i \<in> key_id ` set keys \<Longrightarrow> detail_item_id r \<noteq> i" by auto
    then show ?thesis
      using None ih by (auto simp: details_step_Cons(1) [of api keys r rows] details_step_single)
  next
    case (Some res)
    with one obtain d where d: "process_detail api keys r = Some (Inr d)"
      by (cases res) (auto simp: details_step_single)
    from process_detail_pushed [OF d]
    have "itemOverview d \<in> set keys" and kid: "key_id (itemOverview d) = detail_item_id r"
      by simp_all
    then have "detail_item_id r \<in> key_id ` set keys"
      by (metis imageI)
    then show ?thesis
      using d ih kid by (auto simp: details_step_Cons(1) [of api keys r rows] details_step_single)
  qed
qed

lemma details_step_origin:
  "d \<in> set (details (details_step api keys rows)) \<Longrightarrow>
     \<exists>r \<in> set rows. detail_item_id r = key_id (itemOverview d)"
proof (induction rows)
  case Nil
  then show ?case by (simp add: details_step_def)
next
  case (Cons r rows)
  then show ?case
    by (auto simp: details_step_Cons(1) [of api keys r rows] details_step_single
        split: option.splits sum.splits dest: process_detail_pushed)
qed

lemma filter_details_subset:
  "filter_details title ds = Inr found \<Longrightarrow> set found \<subseteq> set ds"
  by (induction ds arbitrary: found) (auto split: sum.splits if_splits)

lemma search_subset: "search v title = Inr found \<Longrightarrow> set found \<subseteq> set (details v)"
  by (auto simp: search_def split: sum.splits if_splits dest: filter_details_subset)

section \<open>Facts about the sample values\<close>

lemma sample_tag_length: "length (hmac_digest sample_api k d) = 32"
  by (simp add: sample_api_def)

lemma sample_decipher_inverse:
  "length k = 32 \<Longrightarrow> length iv = 16 \<Longrightarrow> length x mod 16 = 0 \<Longrightarrow>
     decipher_run sample_api k iv (sample_encipher k iv x) = Inr x"
  by (simp add: sample_api_def sample_encipher_def comp_def)

lemma sample_opens:
  assumes "length (fst K) = 32" and "length (padding @ P) mod 16 = 0" and "length P < 2 ^ 32"
  shows "decryptKeyData sample_api K
           (seal_opdata01 sample_api sample_encipher K sample_iv padding P) True =
         Callback_ok (if P = [] then padding else P)"
proof (rule opdata01_opens)
  show "length sample_iv = 16" by (simp add: sample_iv_def)
  show "\<And>k d. length (hmac_digest sample_api k d) = 32" by (rule sample_tag_length)
  show "decipher_run sample_api (fst K) sample_iv
          (sample_encipher (fst K) sample_iv (padding @ P)) = Inr (padding @ P)"
    using assms(1,2) by (intro sample_decipher_inverse) (simp_all add: sample_iv_def)
  show "length P < 2 ^ 32" by (rule assms(3))
qed

lemma sample_iv_length_field: "declared_length sample_iv = Inr 0"
  by (simp add: declared_length_def readUInt32LE_def sample_iv_def js_shl_def)

lemma sample_plain_opens:
  assumes "length (fst K) = 32" and "length P mod 16 = 0"
  shows "decryptKeyData sample_api K
           (seal_plain sample_api sample_encipher K sample_iv P) False = Callback_ok P"
proof -
  have "decryptKeyData sample_api K
           (seal_plain sample_api sample_encipher K sample_iv P) False =
           Callback_ok (buf_slice_from P (- \<bar>0\<bar>))"
  proof (rule plain_opens)
    show "length sample_iv = 16" by (simp add: sample_iv_def)
    show "\<And>k d. length (hmac_digest sample_api k d) = 32" by (rule sample_tag_length)
    show "decipher_run sample_api (fst K) sample_iv
            (sample_encipher (fst K) sample_iv P) = Inr P"
      using assms by (intro sample_decipher_inverse) (simp_all add: sample_iv_def)
    show "declared_length sample_iv = Inr 0" by (rule sample_iv_length_field)
  qed
  then show ?thesis by (simp add: buf_slice_from_zero)
qed

lemma sample_derive:
  "pbkdf2 sample_api sample_password (salt sample_profile) (iterations sample_profile) 64
     = Inr (replicate 64 7)"
  by (simp add: sample_api_def sample_password_def)

lemma sample_master_opens:
  "decryptKeyData sample_api sample_top_keypair (master_key_data sample_profile) True
     = Callback_ok (replicate 8 3)"
  using sample_opens [of sample_top_keypair "replicate 8 9" "replicate 8 3"]
  by (simp add: sample_profile_def sample_top_keypair_def)

lemma sample_overview_opens:
  "decryptKeyData sample_api sample_top_keypair (overview_key_data sample_profile) True
     = Callback_ok (replicate 4 5)"
  using sample_opens [of sample_top_keypair "replicate 12 9" "replicate 4 5"]
  by (simp add: sample_profile_def sample_top_keypair_def)

lemma sample_unlock:
  "unlock_key_hierarchy sample_api sample_password sample_profile =
     Inr (sample_master_keypair, sample_overview_keypair)"
proof -
  have m: "hash_digest sample_api (replicate 8 3) = replicate 64 24"
    by (simp add: sample_api_def sum_list_replicate)
  have v: "hash_digest sample_api (replicate 4 5) = replicate 64 20"
    by (simp add: sample_api_def sum_list_replicate)
  have t: "(take 32 (replicate 64 7 :: buffer), drop 32 (replicate 64 7 :: buffer)) =
      sample_top_keypair"
    by (simp add: sample_top_keypair_def)
  have a: "snd (decryptKeyData_run sample_api sample_top_keypair
      (master_key_data sample_profile) True) = Callback_ok (replicate 8 3)"
    using sample_master_opens by (simp add: decryptKeyData_def)
  have b: "snd (decryptKeyData_run sample_api sample_top_keypair
      (overview_key_data sample_profile) True) = Callback_ok (replicate 4 5)"
    using sample_overview_opens by (simp add: decryptKeyData_def)
  show ?thesis
    unfolding unlock_key_hierarchy_def unlock_key_hierarchy_run_unfold [OF sample_derive] t
    by (simp add: Let_def a b m v sample_master_keypair_def sample_overview_keypair_def)
qed

lemma sample_json_github: "json_parse sample_api (71 # bs) = Inr (JObj [(''title'', JStr ''Github'')])"
  by (simp add: sample_api_def)

lemma sample_json_mail:
  "b \<noteq> 71 \<Longrightarrow> b \<noteq> 110 \<Longrightarrow>
     json_parse sample_api (b # bs) = Inr (JObj [(''title'', JStr ''Mail'')])"
  by (simp add: sample_api_def)

lemma sample_json_null: "json_parse sample_api (110 # bs) = Inr JNull"
  by (simp add: sample_api_def)

lemma sample_item_1_overview:
  "decryptKeyData sample_api sample_overview_keypair (overview_data sample_item_1) False =
     Callback_ok (71 # replicate 15 0)"
  using sample_plain_opens [of sample_overview_keypair "71 # replicate 15 0"]
  by (simp add: sample_item_1_def sample_overview_keypair_def)

lemma sample_item_1_key:
  "decryptKeyData sample_api sample_master_keypair (key_data sample_item_1) False =
     Callback_ok (replicate 64 4)"
  using sample_plain_opens [of sample_master_keypair "replicate 64 4"]
  by (simp add: sample_item_1_def sample_master_keypair_def)

lemma sample_item_2_overview:
  "decryptKeyData sample_api sample_overview_keypair (overview_data sample_item_2) False =
     Callback_ok (77 # replicate 15 0)"
  using sample_plain_opens [of sample_overview_keypair "77 # replicate 15 0"]
  by (simp add: sample_item_2_def sample_overview_keypair_def)

lemma sample_item_2_key:
  "decryptKeyData sample_api sample_master_keypair (key_data sample_item_2) False =
     Callback_ok []"
  using sample_plain_opens [of sample_master_keypair "[]"]
  by (simp add: sample_item_2_def sample_master_keypair_def)

lemma sample_item_3_overview:
  "decryptKeyData sample_api sample_overview_keypair (overview_data sample_item_3) False =
     Callback_err (Error ''Invalid password'')"
proof -
  have "hmac_digest sample_api (snd sample_overview_keypair)
          (take (length (overview_data sample_item_3) - 32) (overview_data sample_item_3))
        \<noteq> drop (length (overview_data sample_item_3) - 32) (overview_data sample_item_3)"
    by (simp add: sample_item_3_def sample_api_def sample_overview_keypair_def
        sum_list_replicate)
  then show ?thesis
    using decryptKeyData_run_bad_tag
      [of False "overview_data sample_item_3" sample_api sample_overview_keypair]
    by (simp add: decryptKeyData_def sample_item_3_def)
qed

lemma sample_process_item_1:
  "process_item sample_api sample_overview_keypair sample_master_keypair sample_item_1 =
     Inr (Some sample_key_1)"
  by (simp add: process_item_def sample_item_1_overview sample_item_1_key
      sample_json_github createKeyPair_plain sample_key_1_def)
     (simp add: sample_item_1_def)

lemma sample_process_item_2:
  "process_item sample_api sample_overview_keypair sample_master_keypair sample_item_2 =
     Inr (Some sample_key_2)"
  by (simp add: process_item_def sample_item_2_overview sample_item_2_key
      sample_json_mail sample_key_2_def)
     (simp add: sample_item_2_def)

lemma sample_process_item_3:
  "process_item sample_api sample_overview_keypair sample_master_keypair sample_item_3 =
     Inr None"
  by (simp add: process_item_def sample_item_3_overview)

lemma sample_process_item_4:
  "process_item sample_api sample_overview_keypair sample_master_keypair sample_item_4 =
     Inr (Some sample_key_4)"
  by (simp add: process_item_def sample_item_4_def sample_item_1_overview sample_item_1_key
      sample_json_github createKeyPair_plain sample_key_4_def sample_key_1_def)

lemma sample_build_keys:
  "build_keys sample_api sample_overview_keypair sample_master_keypair
     (db_all_items sample_database (profile_id sample_profile)) [] =
   Inr [sample_key_1, sample_key_2, sample_key_4]"
proof -
  have "db_all_items sample_database (profile_id sample_profile) =
      [sample_item_1, sample_item_3, sample_item_2, sample_item_4]"
    by (simp add: db_all_items_def sample_database_def sample_profile_def sample_item_1_def
        sample_item_2_def sample_item_3_def sample_item_4_def)
  then show ?thesis
    by (simp add: sample_process_item_1 sample_process_item_2 sample_process_item_3
        sample_process_item_4)
qed

lemma sample_key_ids:
  "key_id sample_key_1 = 1" "key_id sample_key_2 = 2" "key_id sample_key_4 = 4"
  by (simp_all add: sample_key_1_def sample_key_2_def sample_key_4_def)

lemma sample_detail_1_opens:
  "decryptKeyData sample_api (itemDataKeyPair sample_key_1) (detail_data sample_detail_1) True
     = Callback_ok (replicate 5 1)"
  using sample_opens [of "(replicate 32 4, replicate 32 4)" "replicate 11 9" "replicate 5 1"]
  by (simp add: sample_detail_1_def sample_key_1_def)

lemma sample_detail_bad_tag_fails:
  "decryptKeyData sample_api (itemDataKeyPair sample_key_2)
     (detail_data sample_detail_bad_tag) True = Callback_err (Error ''Invalid password'')"
proof -
  have "hmac_digest sample_api (snd sample_overview_keypair)
          (take (length bad_tag_envelope - 32) bad_tag_envelope)
        \<noteq> drop (length bad_tag_envelope - 32) bad_tag_envelope"
    by (simp add: bad_tag_envelope_def ascii_bytes_def sample_api_def
        sample_overview_keypair_def sum_list_replicate)
  moreover have "True \<longrightarrow> take 8 bad_tag_envelope = ascii_bytes ''opdata01''"
    by (simp add: bad_tag_envelope_def ascii_bytes_def)
  moreover have "length bad_tag_envelope = 64"
    by (simp add: bad_tag_envelope_def ascii_bytes_def)
  ultimately show ?thesis
    using decryptKeyData_run_bad_tag [of True bad_tag_envelope sample_api sample_overview_keypair]
    by (simp add: decryptKeyData_def sample_detail_bad_tag_def sample_key_2_def)
qed

lemma sample_detail_1_json:
  "json_parse sample_api (replicate 5 1) = Inr (JObj [(''title'', JStr ''Mail'')])"
proof -
  have "replicate 5 (1 :: byte) = [1, 1, 1, 1, 1]"
    by (simp add: numeral_eq_Suc)
  then show ?thesis
    by (simp add: sample_api_def)
qed

lemma sample_process_detail_1:
  "process_detail sample_api [sample_key_1, sample_key_2, sample_key_4] sample_detail_1 =
     Some (Inr sample_entry_1)"
proof -
  have "detail_item_id sample_detail_1 = 1" by (simp add: sample_detail_1_def)
  then show ?thesis
    by (simp add: process_detail_def sample_key_ids sample_detail_1_opens sample_entry_1_def
        sample_detail_1_json)
qed

lemma sample_process_detail_orphan:
  "process_detail sample_api [sample_key_1, sample_key_2, sample_key_4] sample_detail_orphan
     = None"
proof -
  have "detail_item_id sample_detail_orphan = 99" by (simp add: sample_detail_orphan_def)
  then show ?thesis by (simp add: process_detail_def sample_key_ids)
qed

lemma sample_process_detail_bad_tag:
  "process_detail sample_api [sample_key_1, sample_key_2, sample_key_4] sample_detail_bad_tag
     = Some (Inr sample_entry_2)"
proof -
  have "detail_item_id sample_detail_bad_tag = 2" by (simp add: sample_detail_bad_tag_def)
  then show ?thesis
    by (simp add: process_detail_def sample_key_ids sample_detail_bad_tag_fails
        sample_entry_2_def)
qed

lemma sample_details_step:
  "details_step sample_api [sample_key_1, sample_key_2, sample_key_4]
     (item_details sample_database) =
   \<lparr>details = [sample_entry_1, sample_entry_2, sample_entry_1], dbPromise = Inr ()\<rparr>"
  by (simp add: details_step_def sample_database_def sample_process_detail_1
      sample_process_detail_orphan sample_process_detail_bad_tag)

lemma sample_Vault:
  "Vault sample_api sample_database sample_password None =
   \<lparr>details = [sample_entry_1, sample_entry_2, sample_entry_1], dbPromise = Inr ()\<rparr>"
proof -
  have "db_get_profile sample_database ''default'' = Some sample_profile"
    by (simp add: db_get_profile_def sample_database_def sample_profile_def)
  then show ?thesis
    by (simp add: Vault_def sample_unlock sample_build_keys sample_details_step)
qed

lemma sample_Vault_named:
  "Vault sample_api sample_database sample_password (Some ''default'') =
   \<lparr>details = [sample_entry_1, sample_entry_2, sample_entry_1], dbPromise = Inr ()\<rparr>"
proof -
  have "db_get_profile sample_database ''default'' = Some sample_profile"
    by (simp add: db_get_profile_def sample_database_def sample_profile_def)
  then show ?thesis
    by (simp add: Vault_def sample_unlock sample_build_keys sample_details_step)
qed

lemma sample_item_null_overview:
  "decryptKeyData sample_api sample_overview_keypair (overview_data sample_item_null) False =
     Callback_ok (110 # replicate 15 0)"
  using sample_plain_opens [of sample_overview_keypair "110 # replicate 15 0"]
  by (simp add: sample_item_null_def sample_overview_keypair_def)

lemma sample_item_null_key:
  "decryptKeyData sample_api sample_master_keypair (key_data sample_item_null) False =
     Callback_ok []"
  using sample_plain_opens [of sample_master_keypair "[]"]
  by (simp add: sample_item_null_def sample_master_keypair_def)

lemma sample_process_item_null:
  "process_item sample_api sample_overview_keypair sample_master_keypair sample_item_null =
     Inr (Some sample_key_null)"
  by (simp add: process_item_def sample_item_null_overview sample_item_null_key
      sample_json_null sample_key_null_def)
     (simp add: sample_item_null_def)

lemma null_overview_build_keys:
  "build_keys sample_api sample_overview_keypair sample_master_keypair
     (db_all_items null_overview_database (profile_id sample_profile)) [] =
   Inr [sample_key_1, sample_key_null]"
proof -
  have "db_all_items null_overview_database (profile_id sample_profile) =
      [sample_item_1, sample_item_null]"
    by (simp add: db_all_items_def null_overview_database_def sample_profile_def
        sample_item_1_def sample_item_null_def)
  then show ?thesis
    by (simp add: sample_process_item_1 sample_process_item_null)
qed

lemma sample_key_null_id: "key_id sample_key_null = 5"
  by (simp add: sample_key_null_def)

lemma null_overview_detail_1:
  "process_detail sample_api [sample_key_1, sample_key_null] sample_detail_1 =
     Some (Inr sample_entry_1)"
proof -
  have "detail_item_id sample_detail_1 = 1" by (simp add: sample_detail_1_def)
  then show ?thesis
    by (simp add: process_detail_def sample_key_ids sample_detail_1_opens sample_entry_1_def
        sample_detail_1_json)
qed

lemma null_overview_detail_null:
  "process_detail sample_api [sample_key_1, sample_key_null] sample_detail_null =
     Some (Inr sample_entry_null)"
proof -
  have i: "detail_item_id sample_detail_null = 5" by (simp add: sample_detail_null_def)
  have "decryptKeyData sample_api (itemDataKeyPair sample_key_null)
      (detail_data sample_detail_null) True = Callback_err (Error ''Invalid password'')"
    using sample_detail_bad_tag_fails
    by (simp add: sample_key_null_def sample_key_2_def sample_detail_null_def
        sample_detail_bad_tag_def)
  then show ?thesis
    using i
    by (simp add: process_detail_def sample_key_ids sample_key_null_id sample_entry_null_def)
qed

lemma null_overview_Vault:
  "Vault sample_api null_overview_database sample_password None =
   \<lparr>details = [sample_entry_1, sample_entry_null], dbPromise = Inr ()\<rparr>"
proof -
  have p: "db_get_profile null_overview_database ''default'' = Some sample_profile"
    by (simp add: db_get_profile_def null_overview_database_def sample_profile_def)
  have d: "details_step sample_api [sample_key_1, sample_key_null]
      (item_details null_overview_database) =
      \<lparr>details = [sample_entry_1, sample_entry_null], dbPromise = Inr ()\<rparr>"
    by (simp add: details_step_def null_overview_database_def null_overview_detail_1
        null_overview_detail_null)
  show ?thesis
    by (simp add: Vault_def p sample_unlock null_overview_build_keys d)
qed

section \<open>The length field\<close>

lemma uint64_le_words:
  "uint64_le buf off =
     unat (buf ! off) + unat (buf ! (off + 1)) * 2 ^ 8
       + unat (buf ! (off + 2)) * 2 ^ 16 + unat (buf ! (off + 3)) * 2 ^ 24
     + 2 ^ 32 * (unat (buf ! (off + 4)) + unat (buf ! (off + 5)) * 2 ^ 8
       + unat (buf ! (off + 6)) * 2 ^ 16 + unat (buf ! (off + 7)) * 2 ^ 24)"
  by (simp add: uint64_le_def lessThan_nat_numeral lessThan_Suc)

text \<open>
  C1. The claim: the declared length is the full unsigned 64-bit little-endian
  integer at bytes 8 to 16, the high 32-bit word shifted left by 32 bits. On the
  code the high word is shifted by 8 bits: for the length field \<open>2 ^ 32\<close> (low word
  0, high word 1) line 228 computes 256.
\<close>

theorem declared_length_shifts_high_word_by_8:
  "declared_length length_field_sample = Inr 256
   \<and> uint64_le length_field_sample 8 = 2 ^ 32"
  by (simp add: declared_length_def readUInt32LE_def js_shl_def uint64_le_words
      length_field_sample_def ascii_bytes_def)

section \<open>The round trip\<close>

text \<open>
  C2. The claim: an envelope built for a plaintext opens to that plaintext. On the
  code the envelope of the empty plaintext, whose ciphertext is one block of padding,
  opens to the padding: \<open>length\<close> is 0 and \<open>plaintext.slice(-Math.abs(length))\<close>
  is \<open>plaintext.slice(-0)\<close>, the whole buffer.
\<close>

theorem empty_plaintext_opens_to_padding:
  assumes "length iv = 16"
    and "\<forall>k d. length (hmac_digest api k d) = 32"
    and "decipher_run api (fst K) iv (encipher (fst K) iv padding) = Inr padding"
  shows "decryptKeyData api K (seal_opdata01 api encipher K iv padding []) True =
           Callback_ok padding"
  using opdata01_opens [of iv api K encipher padding "[]"] assms by simp

theorem empty_plaintext_opens_to_padding_witness:
  "decryptKeyData sample_api sample_keypair
     (seal_opdata01 sample_api sample_encipher sample_keypair sample_iv sample_padding [])
     True = Callback_ok sample_padding
   \<and> sample_padding \<noteq> []"
proof -
  have 1: "length sample_iv = 16" by (simp add: sample_iv_def)
  have 2: "\<forall>k d. length (hmac_digest sample_api k d) = 32"
    by (simp add: sample_tag_length)
  have 3: "decipher_run sample_api (fst sample_keypair) sample_iv
      (sample_encipher (fst sample_keypair) sample_iv sample_padding) = Inr sample_padding"
    by (rule sample_decipher_inverse) (simp_all add: sample_keypair_def sample_iv_def sample_padding_def)
  have 4: "sample_padding \<noteq> []" by (simp add: sample_padding_def)
  show ?thesis
    using empty_plaintext_opens_to_padding [where encipher = sample_encipher, OF 1 2 3] 4
    by simp
qed

section \<open>The magic check\<close>

text \<open>
  C3, the claim as stated: every envelope opened as OPData01 whose first eight bytes
  are not the magic fails with the checksum error. It does not hold on a buffer of
  fewer than 16 bytes: line 228 reads the length field before the magic is compared,
  and the read throws a \<open>RangeError\<close>.
\<close>

theorem short_envelope_no_checksum_error:
  "take 8 short_envelope \<noteq> ascii_bytes ''opdata01''
   \<and> decryptKeyData sample_api sample_keypair short_envelope True = Thrown RangeError"
  by (simp add: decryptKeyData_def decryptKeyData_run_short short_envelope_def
      ascii_bytes_def)

text \<open>
  C3, amended: an envelope of at least 16 bytes opened as OPData01 whose first eight
  bytes are not the magic ends with the callback error
  \<open>Invalid OPData1 Checksum\<close>, whatever its tag is; a shorter one ends with a
  \<open>RangeError\<close>; and in both cases no call into the crypto library has been made,
  so no HMAC has been computed or compared.
\<close>

theorem magic_mismatch_before_hmac:
  assumes "take 8 data \<noteq> ascii_bytes ''opdata01''"
  shows "decryptKeyData api keypair data True =
           (if length data < 16 then Thrown RangeError
            else Callback_err (Error ''Invalid OPData1 Checksum''))
         \<and> decryptKeyData_calls api keypair data True = []"
proof (cases "length data < 16")
  case True
  then show ?thesis
    by (simp add: decryptKeyData_def decryptKeyData_calls_def decryptKeyData_run_short)
next
  case False
  then obtain len where "declared_length data = Inr len"
    using declared_length_long [of data] by auto
  then show ?thesis using assms False
    by (simp add: decryptKeyData_def decryptKeyData_calls_def decryptKeyData_run_long)
qed

theorem magic_mismatch_before_hmac_witness:
  "take 8 bad_magic_envelope \<noteq> ascii_bytes ''opdata01''
   \<and> decryptKeyData sample_api sample_keypair bad_magic_envelope True =
       Callback_err (Error ''Invalid OPData1 Checksum'')
   \<and> decryptKeyData_calls sample_api sample_keypair bad_magic_envelope True = []"
proof -
  have h: "take 8 bad_magic_envelope \<noteq> ascii_bytes ''opdata01''"
    by (simp add: bad_magic_envelope_def ascii_bytes_def)
  have l: "length bad_magic_envelope = 64"
    by (simp add: bad_magic_envelope_def ascii_bytes_def)
  show ?thesis
    using h l magic_mismatch_before_hmac [OF h, of sample_api sample_keypair] by simp
qed

section \<open>The HMAC check\<close>

text \<open>
  C4, the claim as stated: every envelope that passes the magic check and whose tag
  is not the HMAC of the bytes before it fails with the authentication error. It does
  not hold on a buffer of fewer than 16 bytes: the magic alone, opened as OPData01,
  passes the magic check and has a wrong tag, and the read of the length field
  throws a \<open>RangeError\<close>.
\<close>

theorem bare_magic_no_authentication_error:
  "take 8 bare_magic = ascii_bytes ''opdata01''
   \<and> hmac_digest sample_api (snd sample_keypair) (take (length bare_magic - 32) bare_magic)
       \<noteq> drop (length bare_magic - 32) bare_magic
   \<and> decryptKeyData sample_api sample_keypair bare_magic True = Thrown RangeError"
proof -
  have "length (hmac_digest sample_api (snd sample_keypair)
          (take (length bare_magic - 32) bare_magic)) = 32"
    by (rule sample_tag_length)
  moreover have "length (drop (length bare_magic - 32) bare_magic) = 8"
    by (simp add: bare_magic_def ascii_bytes_def)
  ultimately have "hmac_digest sample_api (snd sample_keypair)
      (take (length bare_magic - 32) bare_magic) \<noteq> drop (length bare_magic - 32) bare_magic"
    by auto
  then show ?thesis
    by (simp add: decryptKeyData_def decryptKeyData_run_short bare_magic_def ascii_bytes_def)
qed

text \<open>
  C4, amended: an envelope of at least 16 bytes that passes the magic check (or is
  opened without one) and whose last 32 bytes are not the HMAC-SHA256, under the MAC
  key, of the bytes before them ends with the callback error \<open>Invalid password\<close>;
  a shorter one ends with a \<open>RangeError\<close>. The only call into the crypto library
  is the HMAC: the cipher is not reached. When the envelope is the master key data of
  a profile and the key pair is the one derived from the master password, that error
  is what the unlock is rejected with: no other check of the password exists.
\<close>

theorem hmac_mismatch_before_decipher:
  assumes magic: "isOpdata01 \<longrightarrow> take 8 data = ascii_bytes ''opdata01''"
    and tag: "hmac_digest api (snd keypair) (take (length data - 32) data)
           \<noteq> drop (length data - 32) data"
  shows "decryptKeyData api keypair data isOpdata01 =
           (if length data < 16 then Thrown RangeError
            else Callback_err (Error ''Invalid password''))
         \<and> decryptKeyData_calls api keypair data isOpdata01 =
           (if length data < 16 then []
            else [Hmac_call (snd keypair) (take (length data - 32) data)])
         \<and> (\<forall>masterPassword p key.
               pbkdf2 api masterPassword (salt p) (iterations p) 64 = Inr key
               \<and> keypair = (take 32 key, drop 32 key)
               \<and> master_key_data p = data \<and> isOpdata01 \<and> 16 \<le> length data
               \<longrightarrow> unlock_key_hierarchy api masterPassword p =
                     Inl (Error ''Invalid password''))"
proof -
  have env: "decryptKeyData_run api keypair data isOpdata01 =
      (if length data < 16 then ([], Thrown RangeError)
       else ([Hmac_call (snd keypair) (take (length data - 32) data)],
             Callback_err (Error ''Invalid password'')))"
  proof (cases "length data < 16")
    case True
    then show ?thesis by (simp add: decryptKeyData_run_short)
  next
    case False
    then obtain len where "declared_length data = Inr len"
      using declared_length_long [of data] by auto
    then show ?thesis using magic tag False
      by (simp add: decryptKeyData_run_long Let_def)
  qed
  have "unlock_key_hierarchy api masterPassword p = Inl (Error ''Invalid password'')"
    if "pbkdf2 api masterPassword (salt p) (iterations p) 64 = Inr key"
      and "keypair = (take 32 key, drop 32 key)" and "master_key_data p = data"
      and "isOpdata01" and "16 \<le> length data"
    for masterPassword p key
    using that env
    by (simp add: unlock_key_hierarchy_def unlock_key_hierarchy_run_unfold Let_def)
  then show ?thesis
    using env by (simp add: decryptKeyData_def decryptKeyData_calls_def)
qed

theorem hmac_mismatch_before_decipher_witness:
  "take 8 bad_tag_envelope = ascii_bytes ''opdata01''
   \<and> hmac_digest sample_api (snd sample_keypair)
         (take (length bad_tag_envelope - 32) bad_tag_envelope)
       \<noteq> drop (length bad_tag_envelope - 32) bad_tag_envelope
   \<and> decryptKeyData sample_api sample_keypair bad_tag_envelope True =
       Callback_err (Error ''Invalid password'')
   \<and> decryptKeyData_calls sample_api sample_keypair bad_tag_envelope True =
       [Hmac_call (snd sample_keypair) (take 32 bad_tag_envelope)]"
proof -
  have l: "length bad_tag_envelope = 64"
    by (simp add: bad_tag_envelope_def ascii_bytes_def)
  have m: "True \<longrightarrow> take 8 bad_tag_envelope = ascii_bytes ''opdata01''"
    by (simp add: bad_tag_envelope_def ascii_bytes_def)
  have t: "hmac_digest sample_api (snd sample_keypair)
         (take (length bad_tag_envelope - 32) bad_tag_envelope)
       \<noteq> drop (length bad_tag_envelope - 32) bad_tag_envelope"
    by (simp add: bad_tag_envelope_def ascii_bytes_def sample_api_def sample_keypair_def
        sum_list_replicate)
  show ?thesis
    using l m t hmac_mismatch_before_decipher [OF m t] by simp
qed

section \<open>The key hierarchy\<close>

text \<open>
  C5. With the key that PBKDF2 derived, cut into its first 32 bytes and the rest:
  when the master and the overview key data both open (as OPData01, under that key
  pair), the master and the overview key pairs are the SHA-512 hashes of the two
  plaintexts, each cut into its first 32 bytes and the rest (the last 32 of the 64
  bytes of a hash); when the master key data fails to open, by an exception or by
  a callback error, the unlock is rejected with that same error, the calls made are
  the key derivation and those of that one opening, and nothing depends on the
  overview key data; when the overview key data fails to open, the unlock is
  rejected with its error.
\<close>

theorem unlock_key_hierarchy_chain:
  assumes kdf: "pbkdf2 api masterPassword (salt p) (iterations p) 64 = Inr key"
  shows
   "(decryptKeyData api (take 32 key, drop 32 key) (master_key_data p) True
       = Callback_ok masterRaw
     \<and> decryptKeyData api (take 32 key, drop 32 key) (overview_key_data p) True
       = Callback_ok overviewRaw
     \<longrightarrow> unlock_key_hierarchy api masterPassword p =
          Inr ((take 32 (hash_digest api masterRaw), drop 32 (hash_digest api masterRaw)),
               (take 32 (hash_digest api overviewRaw),
                drop 32 (hash_digest api overviewRaw))))
    \<and> (decryptKeyData api (take 32 key, drop 32 key) (master_key_data p) True
         \<in> {Thrown e, Callback_err e}
     \<longrightarrow> unlock_key_hierarchy api masterPassword p = Inl e
        \<and> unlock_key_hierarchy_calls api masterPassword p =
            Pbkdf2_call masterPassword (salt p) (iterations p)
            # decryptKeyData_calls api (take 32 key, drop 32 key) (master_key_data p) True
        \<and> (\<forall>x. unlock_key_hierarchy_run api masterPassword (p\<lparr>overview_key_data := x\<rparr>)
               = unlock_key_hierarchy_run api masterPassword p))
    \<and> (decryptKeyData api (take 32 key, drop 32 key) (master_key_data p) True
         = Callback_ok masterRaw
       \<and> decryptKeyData api (take 32 key, drop 32 key) (overview_key_data p) True
         \<in> {Thrown e, Callback_err e}
     \<longrightarrow> unlock_key_hierarchy api masterPassword p = Inl e)"
proof -
  have kdf': "\<And>x. pbkdf2 api masterPassword (salt (p\<lparr>overview_key_data := x\<rparr>))
      (iterations (p\<lparr>overview_key_data := x\<rparr>)) 64 = Inr key"
    using kdf by simp
  show ?thesis
    by (auto simp: unlock_key_hierarchy_def unlock_key_hierarchy_calls_def
        decryptKeyData_def decryptKeyData_calls_def Let_def
        unlock_key_hierarchy_run_unfold [OF kdf] unlock_key_hierarchy_run_unfold [OF kdf'])
qed

theorem unlock_key_hierarchy_chain_witness:
  "unlock_key_hierarchy sample_api sample_password sample_profile =
     Inr (sample_master_keypair, sample_overview_keypair)"
proof -
  have m: "hash_digest sample_api (replicate 8 3) = replicate 64 24"
    by (simp add: sample_api_def sum_list_replicate)
  have v: "hash_digest sample_api (replicate 4 5) = replicate 64 20"
    by (simp add: sample_api_def sum_list_replicate)
  show ?thesis
    using unlock_key_hierarchy_chain [OF sample_derive, of "replicate 8 3" "replicate 4 5"]
      sample_master_opens sample_overview_opens
    by (simp add: sample_top_keypair_def m v sample_master_keypair_def
        sample_overview_keypair_def)
qed

section \<open>The keys of the items\<close>

text \<open>
  C6. For an item whose overview and key data both open and whose overview parses,
  the element pushed on \<open>keys\<close> carries the overview key pair when the decrypted
  key data is empty, and otherwise the decrypted key data itself cut into its first
  32 bytes and the rest. No hash is involved: the outcome for the item is the same
  whatever the hash function is.
\<close>

theorem item_key_pair_selection:
  assumes ov: "decryptKeyData api okp (overview_data item) False = Callback_ok overviewRaw"
    and key: "decryptKeyData api mkp (key_data item) False = Callback_ok keyRaw"
    and js: "json_parse api overviewRaw = Inr parsed"
  shows "process_item api okp mkp item =
           Inr (Some \<lparr>overviewDataRaw = overviewRaw, overviewData = parsed,
                      itemDataKeyPair =
                        (if keyRaw = [] then okp else (take 32 keyRaw, drop 32 keyRaw)),
                      key_id = item_id item\<rparr>)
         \<and> (\<forall>h. process_item (api\<lparr>hash_digest := h\<rparr>) okp mkp item =
                  process_item api okp mkp item)"
proof -
  have same: "decryptKeyData (api\<lparr>hash_digest := h\<rparr>) kp data b = decryptKeyData api kp data b"
    for h kp data b
    by (simp add: decryptKeyData_def decryptKeyData_run_def Let_def split: sum.split)
  have same_pair: "createKeyPair (api\<lparr>hash_digest := h\<rparr>) data False =
      createKeyPair api data False" for h data
    by (simp add: createKeyPair_plain)
  show ?thesis
    using ov key js
    by (simp add: process_item_def same same_pair createKeyPair_plain)
qed

theorem item_key_pair_selection_witness:
  "process_item sample_api sample_overview_keypair sample_master_keypair sample_item_1 =
     Inr (Some \<lparr>overviewDataRaw = 71 # replicate 15 0,
                overviewData = JObj [(''title'', JStr ''Github'')],
                itemDataKeyPair = (replicate 32 4, replicate 32 4),
                key_id = 1\<rparr>)
   \<and> process_item sample_api sample_overview_keypair sample_master_keypair sample_item_2 =
     Inr (Some \<lparr>overviewDataRaw = 77 # replicate 15 0,
                overviewData = JObj [(''title'', JStr ''Mail'')],
                itemDataKeyPair = sample_overview_keypair,
                key_id = 2\<rparr>)"
proof -
  have j2: "json_parse sample_api (77 # replicate 15 0) = Inr (JObj [(''title'', JStr ''Mail'')])"
    by (simp add: sample_json_mail)
  have i1: "item_id sample_item_1 = 1" by (simp add: sample_item_1_def)
  have i2: "item_id sample_item_2 = 2" by (simp add: sample_item_2_def)
  show ?thesis
    using item_key_pair_selection [OF sample_item_1_overview sample_item_1_key
        sample_json_github]
      item_key_pair_selection [OF sample_item_2_overview sample_item_2_key j2]
    by (simp add: i1 i2)
qed

text \<open>
  C7. The claim: a failure to open the overview of one item fails the whole unlock.
  On the code an overview whose HMAC does not match leaves the loop untouched: the
  callback returns \<open>Promise.reject(err)\<close>, nobody receives that promise, and the
  vault is the one that the database without the item gives.
\<close>

theorem failed_overview_item_is_skipped:
  assumes bad: "decryptKeyData api okp (overview_data item) False = Callback_err e"
  shows "build_keys api okp mkp (before @ item # rest) keys =
           build_keys api okp mkp (before @ rest) keys
         \<and> (items db = before @ item # rest
              \<and> db_get_profile db name = Some p
              \<and> unlock_key_hierarchy api masterPassword p = Inr (mkp, okp)
            \<longrightarrow> Vault api db masterPassword (Some name) =
                 Vault api (db\<lparr>items := before @ rest\<rparr>) masterPassword (Some name))"
proof -
  have skip: "process_item api okp mkp item = Inr None"
    using bad by (simp add: process_item_def)
  have loop: "build_keys api okp mkp (xs @ item # ys) ks =
           build_keys api okp mkp (xs @ ys) ks" for xs ys ks
    by (simp add: build_keys_append skip split: sum.split)
  have "build_keys api okp mkp (db_all_items db (profile_id p)) [] =
      build_keys api okp mkp (db_all_items (db\<lparr>items := before @ rest\<rparr>) (profile_id p)) []"
    if "items db = before @ item # rest"
    using that loop by (simp add: db_all_items_def)
  then show ?thesis
    using loop by (auto simp: Vault_def db_get_profile_def split: sum.split)
qed

theorem failed_overview_item_is_skipped_witness:
  "decryptKeyData sample_api sample_overview_keypair (overview_data sample_item_3) False =
     Callback_err (Error ''Invalid password'')
   \<and> Vault sample_api sample_database sample_password (Some ''default'') =
       Vault sample_api
         (sample_database\<lparr>items := [sample_item_1] @ [sample_item_2, sample_item_4]\<rparr>)
         sample_password (Some ''default'')
   \<and> dbPromise (Vault sample_api sample_database sample_password (Some ''default'')) = Inr ()"
proof -
  have i: "items sample_database = [sample_item_1] @ sample_item_3 # [sample_item_2, sample_item_4]"
    by (simp add: sample_database_def)
  have p: "db_get_profile sample_database ''default'' = Some sample_profile"
    by (simp add: db_get_profile_def sample_database_def sample_profile_def)
  have eq: "Vault sample_api sample_database sample_password (Some ''default'') =
       Vault sample_api
         (sample_database\<lparr>items := [sample_item_1] @ [sample_item_2, sample_item_4]\<rparr>)
         sample_password (Some ''default'')"
    using failed_overview_item_is_skipped [OF sample_item_3_overview,
        where mkp = sample_master_keypair and before = "[sample_item_1]"
          and rest = "[sample_item_2, sample_item_4]" and keys = "[]"
          and db = sample_database and name = "''default''" and p = sample_profile
          and masterPassword = sample_password]
      i p sample_unlock
    by blast
  have ok: "dbPromise (Vault sample_api sample_database sample_password (Some ''default''))
      = Inr ()"
    by (simp add: sample_Vault_named)
  show ?thesis
    using eq ok sample_item_3_overview by blast
qed

section \<open>The item details\<close>

text \<open>
  The callback path of the loop over the item details. A detail record whose item id
  no element of \<open>keys\<close> has changes nothing. A detail record whose opening ends
  with a callback error (the checksum or the HMAC failure) pushes an entry with a
  null detail between the entries of the records before it and after it, and the
  promise of the constructor is what it is without the record.
\<close>

lemma detail_callback_errors_tolerated:
  "(find (\<lambda>key. key_id key = detail_item_id r) keys = None
      \<longrightarrow> details_step api keys (before @ r # rest) = details_step api keys (before @ rest))
   \<and> (find (\<lambda>key. key_id key = detail_item_id r) keys = Some k
       \<and> decryptKeyData api (itemDataKeyPair k) (detail_data r) True = Callback_err e
      \<longrightarrow> details (details_step api keys (before @ r # rest)) =
            details (details_step api keys before)
            @ \<lparr>itemOverview = k, itemDetailRaw = None, itemDetail = None\<rparr>
            # details (details_step api keys rest)
          \<and> dbPromise (details_step api keys (before @ r # rest)) =
            dbPromise (details_step api keys (before @ rest)))"
proof -
  have skip: "details_step api keys (before @ r # rest) = details_step api keys (before @ rest)"
    if "find (\<lambda>key. key_id key = detail_item_id r) keys = None"
  proof -
    from that have "process_detail api keys r = None"
      by (simp add: process_detail_def)
    then have "resolve_details api keys (before @ r # rest) [] [] =
        resolve_details api keys (before @ rest) [] []"
      by (simp add: resolve_details_append)
    then show ?thesis by (simp add: details_step_def)
  qed
  have null: "details (details_step api keys (before @ r # rest)) =
            details (details_step api keys before)
            @ \<lparr>itemOverview = k, itemDetailRaw = None, itemDetail = None\<rparr>
            # details (details_step api keys rest)
          \<and> dbPromise (details_step api keys (before @ r # rest)) =
            dbPromise (details_step api keys (before @ rest))"
    if f: "find (\<lambda>key. key_id key = detail_item_id r) keys = Some k"
      and c: "decryptKeyData api (itemDataKeyPair k) (detail_data r) True = Callback_err e"
  proof -
    have one: "details_step api keys [r] =
        \<lparr>details = [\<lparr>itemOverview = k, itemDetailRaw = None, itemDetail = None\<rparr>],
         dbPromise = Inr ()\<rparr>"
      using process_detail_callback_err [OF f c] by (simp add: details_step_single)
    show ?thesis
      by (simp add: details_step_insert [of api keys before r rest] one
          details_step_append(2) [of api keys before rest] split: sum.split)
  qed
  show ?thesis using skip null by blast
qed

lemma sample_bad_tag_detail_is_null:
  "find (\<lambda>key. key_id key = detail_item_id sample_detail_bad_tag)
     [sample_key_1, sample_key_2, sample_key_4] = Some sample_key_2
   \<and> decryptKeyData sample_api (itemDataKeyPair sample_key_2)
       (detail_data sample_detail_bad_tag) True = Callback_err (Error ''Invalid password'')
   \<and> details (details_step sample_api [sample_key_1, sample_key_2, sample_key_4]
        ([sample_detail_1, sample_detail_orphan] @ sample_detail_bad_tag # [sample_detail_1]))
       = [sample_entry_1,
          \<lparr>itemOverview = sample_key_2, itemDetailRaw = None, itemDetail = None\<rparr>,
          sample_entry_1]
   \<and> dbPromise (details_step sample_api [sample_key_1, sample_key_2, sample_key_4]
        ([sample_detail_1, sample_detail_orphan] @ sample_detail_bad_tag # [sample_detail_1]))
       = Inr ()"
proof -
  let ?keys = "[sample_key_1, sample_key_2, sample_key_4]"
  have f: "find (\<lambda>key. key_id key = detail_item_id sample_detail_bad_tag) ?keys
      = Some sample_key_2"
    by (simp add: sample_detail_bad_tag_def sample_key_ids)
  have b: "details_step sample_api ?keys [sample_detail_1, sample_detail_orphan] =
      \<lparr>details = [sample_entry_1], dbPromise = Inr ()\<rparr>"
    by (simp add: details_step_def sample_process_detail_1 sample_process_detail_orphan)
  have a: "details_step sample_api ?keys [sample_detail_1] =
      \<lparr>details = [sample_entry_1], dbPromise = Inr ()\<rparr>"
    by (simp add: details_step_def sample_process_detail_1)
  have w: "details_step sample_api ?keys
      ([sample_detail_1, sample_detail_orphan] @ [sample_detail_1]) =
      \<lparr>details = [sample_entry_1, sample_entry_1], dbPromise = Inr ()\<rparr>"
    by (simp add: details_step_def sample_process_detail_1 sample_process_detail_orphan)
  from detail_callback_errors_tolerated [of sample_detail_bad_tag ?keys sample_api
      "[sample_detail_1, sample_detail_orphan]" "[sample_detail_1]" sample_key_2
      "Error ''Invalid password''"] f sample_detail_bad_tag_fails
  have "details (details_step sample_api ?keys
        ([sample_detail_1, sample_detail_orphan] @ sample_detail_bad_tag # [sample_detail_1]))
      = details (details_step sample_api ?keys [sample_detail_1, sample_detail_orphan])
        @ \<lparr>itemOverview = sample_key_2, itemDetailRaw = None, itemDetail = None\<rparr>
        # details (details_step sample_api ?keys [sample_detail_1])"
    and "dbPromise (details_step sample_api ?keys
        ([sample_detail_1, sample_detail_orphan] @ sample_detail_bad_tag # [sample_detail_1]))
      = dbPromise (details_step sample_api ?keys
          ([sample_detail_1, sample_detail_orphan] @ [sample_detail_1]))"
    by blast+
  then show ?thesis
    using f sample_detail_bad_tag_fails by (simp only: a b w) simp
qed

text \<open>
  C8. The claim: when a detail fails to open for any reason, the entry's detail is
  null, the failure is not propagated and the unlock succeeds. The comment at lines
  170 and 171 says so and the callback path above does it. On the code a failure
  that is an exception is not caught: for item 1's detail record with an empty
  \<open>data\<close> column the read of the length field throws inside the promise executor,
  nothing is pushed for the record, \<open>Promise.all\<close> is rejected, and a search for
  the title of item 1, whose other detail record opened, is rejected with the
  \<open>RangeError\<close>.
\<close>

theorem empty_detail_rejects_unlock:
  "detail_item_id sample_detail_empty = key_id sample_key_1
   \<and> decryptKeyData sample_api (itemDataKeyPair sample_key_1)
       (detail_data sample_detail_empty) True = Thrown RangeError
   \<and> Vault sample_api
       (sample_database\<lparr>item_details := [sample_detail_1, sample_detail_empty]\<rparr>)
       sample_password None
     = \<lparr>details = [sample_entry_1], dbPromise = Inl RangeError\<rparr>
   \<and> search (Vault sample_api
        (sample_database\<lparr>item_details := [sample_detail_1, sample_detail_empty]\<rparr>)
        sample_password None) ''Github''
     = Inl (Some RangeError)"
proof -
  let ?keys = "[sample_key_1, sample_key_2, sample_key_4]"
  let ?db = "sample_database\<lparr>item_details := [sample_detail_1, sample_detail_empty]\<rparr>"
  have f: "find (\<lambda>key. key_id key = detail_item_id sample_detail_empty) ?keys
      = Some sample_key_1"
    by (simp add: sample_detail_empty_def sample_key_ids)
  have t: "decryptKeyData sample_api (itemDataKeyPair sample_key_1)
       (detail_data sample_detail_empty) True = Thrown RangeError"
    by (simp add: decryptKeyData_def decryptKeyData_run_short sample_detail_empty_def)
  have p: "db_get_profile ?db ''default'' = Some sample_profile"
    by (simp add: db_get_profile_def sample_database_def sample_profile_def)
  have k: "build_keys sample_api sample_overview_keypair sample_master_keypair
     (db_all_items ?db (profile_id sample_profile)) [] = Inr ?keys"
    using sample_build_keys by (simp add: db_all_items_def)
  have d: "details_step sample_api ?keys [sample_detail_1, sample_detail_empty] =
      \<lparr>details = [sample_entry_1], dbPromise = Inl RangeError\<rparr>"
    by (simp add: details_step_def sample_process_detail_1 process_detail_thrown [OF f t])
  have v: "Vault sample_api ?db sample_password None =
      \<lparr>details = [sample_entry_1], dbPromise = Inl RangeError\<rparr>"
    by (simp add: Vault_def p sample_unlock k d)
  have i: "detail_item_id sample_detail_empty = key_id sample_key_1"
    by (simp add: sample_detail_empty_def sample_key_ids)
  show ?thesis
    using i t by (simp add: v search_def)
qed

section \<open>Searching\<close>

lemma title_matches_no_null:
  "overviewData (itemOverview d) \<noteq> JNull \<Longrightarrow>
     title_matches title d = Inr (overview_title d = Some (JStr title))"
  by (cases "overviewData (itemOverview d)") (simp_all add: title_matches_def overview_title_def)

lemma filter_details_no_null:
  assumes "\<forall>d \<in> set ds. overviewData (itemOverview d) \<noteq> JNull"
  shows "filter_details title ds = Inr (filter (\<lambda>d. overview_title d = Some (JStr title)) ds)"
  using assms by (induction ds) (simp_all add: title_matches_no_null)

lemma filter_details_matches:
  "filter_details title ds = Inr found \<Longrightarrow>
     found = filter (\<lambda>d. title_matches title d = Inr True) ds"
  by (induction ds arbitrary: found) (auto split: sum.splits if_splits)

lemma process_detail_first_key:
  assumes "process_detail api keys r = Some (Inr d)"
  shows "find (\<lambda>key. key_id key = key_id (itemOverview d)) keys = Some (itemOverview d)"
proof -
  from assms obtain k where k: "find (\<lambda>key. key_id key = detail_item_id r) keys = Some k"
    by (auto simp: process_detail_def split: option.splits)
  have "itemOverview d = k"
    using assms k by (auto simp: process_detail_def split: outcome.splits sum.splits)
  moreover have "key_id k = detail_item_id r"
    using k by (auto simp: find_Some_iff)
  ultimately show ?thesis using k by simp
qed

lemma details_step_first_key:
  "d \<in> set (details (details_step api keys rows)) \<Longrightarrow>
     find (\<lambda>key. key_id key = key_id (itemOverview d)) keys = Some (itemOverview d)"
proof (induction rows)
  case Nil
  then show ?case by (simp add: details_step_def)
next
  case (Cons r rows)
  then show ?case
    by (auto simp: details_step_Cons(1) [of api keys r rows] details_step_single
        split: option.splits sum.splits dest: process_detail_first_key)
qed

text \<open>
  C9, the claim as stated: once the unlock has completed, \<open>search(title)\<close> returns
  exactly the entries whose overview title equals \<open>title\<close>. It does not hold when
  an overview in the index is the JSON value \<open>null\<close>: the constructor accepts
  such an item (its promise is fulfilled), the predicate of \<open>filter\<close> reads
  \<open>overviewData.title\<close> of \<open>null\<close> and throws, and the search for
  \<open>Github\<close> is rejected with a \<open>TypeError\<close> although the first entry of the
  index has that title.
\<close>

theorem null_overview_rejects_search:
  "Vault sample_api null_overview_database sample_password None =
     \<lparr>details = [sample_entry_1, sample_entry_null], dbPromise = Inr ()\<rparr>
   \<and> overview_title sample_entry_1 = Some (JStr ''Github'')
   \<and> overviewData (itemOverview sample_entry_null) = JNull
   \<and> search (Vault sample_api null_overview_database sample_password None) ''Github'' =
       Inl (Some TypeError)"
proof -
  have t: "overview_title sample_entry_1 = Some (JStr ''Github'')"
    by (simp add: overview_title_def sample_entry_1_def sample_key_1_def)
  have n: "overviewData (itemOverview sample_entry_null) = JNull"
    by (simp add: sample_entry_null_def sample_key_null_def)
  have m: "title_matches ''Github'' sample_entry_1 = Inr True"
    by (simp add: title_matches_def sample_entry_1_def sample_key_1_def)
  have e: "title_matches ''Github'' sample_entry_null = Inl TypeError"
    by (simp add: title_matches_def n)
  show ?thesis
    using t n by (simp add: null_overview_Vault search_def m e)
qed

text \<open>
  C9, amended: once the promise of the constructor is fulfilled, and when no overview
  in the index is the JSON value \<open>null\<close>,
  \<open>search(title)\<close> is fulfilled with exactly the elements of the index whose
  overview has the property \<open>title\<close> equal to the string \<open>title\<close>, in the
  order of the index, and is rejected with \<open>undefined\<close> when there is none, so
  also when the index is empty. Strings are equal when they are the same characters:
  a title that differs by case or by a space does not match.
\<close>

theorem search_exact_title:
  assumes "dbPromise v = Inr ()"
    and "\<forall>d \<in> set (details v). overviewData (itemOverview d) \<noteq> JNull"
  shows "search v title =
           (if filter (\<lambda>d. overview_title d = Some (JStr title)) (details v) = []
            then Inl None
            else Inr (filter (\<lambda>d. overview_title d = Some (JStr title)) (details v)))"
  using assms by (simp add: search_def filter_details_no_null)

theorem search_exact_title_witness:
  "dbPromise sample_vault = Inr ()
   \<and> search sample_vault ''Github'' = Inr [titled ''Github'', titled ''Github'']
   \<and> search sample_vault ''GitHub'' = Inl None
   \<and> search (sample_vault\<lparr>details := []\<rparr>) ''Github'' = Inl None"
proof -
  have p: "dbPromise sample_vault = Inr ()" by (simp add: sample_vault_def)
  have n: "\<forall>d \<in> set (details sample_vault). overviewData (itemOverview d) \<noteq> JNull"
    by (simp add: sample_vault_def titled_def)
  have p': "dbPromise (sample_vault\<lparr>details := []\<rparr>) = Inr ()" by (simp add: sample_vault_def)
  have n': "\<forall>d \<in> set (details (sample_vault\<lparr>details := []\<rparr>)).
      overviewData (itemOverview d) \<noteq> JNull"
    by simp
  have t: "overview_title (titled s) = Some (JStr s)" for s
    by (simp add: overview_title_def titled_def)
  have d: "details sample_vault =
      [titled ''Github'', titled ''github'', titled ''Github '', titled ''Github'']"
    by (simp add: sample_vault_def)
  show ?thesis
    using search_exact_title [OF p n, of "''Github''"] search_exact_title [OF p n, of "''GitHub''"]
      search_exact_title [OF p' n', of "''Github''"] p
    by (simp add: d t)
qed

text \<open>
  C10. When the promise of the constructor is fulfilled, the index holds, for every
  id that an element of \<open>keys\<close> has, as many elements as there are detail records
  with that id, and none for any other id. So an item without a detail record is in
  no search result, and an item that is in a search result is there once per detail
  record with its id.
\<close>

theorem index_is_per_detail_record:
  assumes ok: "dbPromise (details_step api keys rows) = Inr ()"
  shows "length (filter (\<lambda>d. key_id (itemOverview d) = i)
                  (details (details_step api keys rows)))
           = (if i \<in> key_id ` set keys
              then length (filter (\<lambda>r. detail_item_id r = i) rows) else 0)
         \<and> (search (details_step api keys rows) title = Inr found
              \<and> (\<forall>r \<in> set rows. detail_item_id r \<noteq> i)
            \<longrightarrow> (\<forall>d \<in> set found. key_id (itemOverview d) \<noteq> i))
         \<and> (search (details_step api keys rows) title = Inr found
              \<and> (\<exists>d \<in> set found. key_id (itemOverview d) = i)
            \<longrightarrow> length (filter (\<lambda>d. key_id (itemOverview d) = i) found)
                  = length (filter (\<lambda>r. detail_item_id r = i) rows))"
proof -
  let ?v = "details_step api keys rows"
  note count = details_step_count [OF ok, of i]
  have absent: "\<forall>d \<in> set found. key_id (itemOverview d) \<noteq> i"
    if s: "search ?v title = Inr found" and none: "\<forall>r \<in> set rows. detail_item_id r \<noteq> i"
  proof
    fix d assume "d \<in> set found"
    then have "d \<in> set (details ?v)" using search_subset [OF s] by auto
    then obtain r where "r \<in> set rows" "detail_item_id r = key_id (itemOverview d)"
      using details_step_origin by blast
    then show "key_id (itemOverview d) \<noteq> i" using none by auto
  qed
  have present: "length (filter (\<lambda>d. key_id (itemOverview d) = i) found)
                  = length (filter (\<lambda>r. detail_item_id r = i) rows)"
    if s: "search ?v title = Inr found"
      and some: "\<exists>d \<in> set found. key_id (itemOverview d) = i"
  proof -
    from some obtain d where d: "d \<in> set found" "key_id (itemOverview d) = i" by blast
    from s have f: "filter_details title (details ?v) = Inr found"
      by (auto simp: search_def split: sum.splits if_splits)
    note m = filter_details_matches [OF f]
    from d m have dm: "d \<in> set (details ?v)" "title_matches title d = Inr True" by auto
    have same: "title_matches title d' = Inr True"
      if "d' \<in> set (details ?v)" "key_id (itemOverview d') = i" for d'
    proof -
      have "itemOverview d' = itemOverview d"
        using details_step_first_key [OF that(1)] details_step_first_key [OF dm(1)]
          that(2) d(2) by simp
      then show ?thesis using dm(2) by (simp add: title_matches_def)
    qed
    have "filter (\<lambda>d. key_id (itemOverview d) = i) found =
        filter (\<lambda>d. key_id (itemOverview d) = i) (details ?v)"
      unfolding m using same by (auto intro: filter_cong)
    moreover have "i \<in> key_id ` set keys"
    proof -
      from details_step_first_key [OF dm(1)] have "itemOverview d \<in> set keys"
        by (auto simp: find_Some_iff)
      then show ?thesis using d(2) by (metis imageI)
    qed
    ultimately show ?thesis using count by simp
  qed
  show ?thesis using count absent present by blast
qed

theorem index_is_per_detail_record_witness:
  "dbPromise (details_step sample_api [sample_key_1, sample_key_2, sample_key_4]
      (item_details sample_database)) = Inr ()
   \<and> length (filter (\<lambda>d. key_id (itemOverview d) = 1)
        (details (details_step sample_api [sample_key_1, sample_key_2, sample_key_4]
           (item_details sample_database)))) = 2
   \<and> length (filter (\<lambda>d. key_id (itemOverview d) = 4)
        (details (details_step sample_api [sample_key_1, sample_key_2, sample_key_4]
           (item_details sample_database)))) = 0
   \<and> search (details_step sample_api [sample_key_1, sample_key_2, sample_key_4]
        (item_details sample_database)) ''Github'' = Inr [sample_entry_1, sample_entry_1]"
proof -
  let ?keys = "[sample_key_1, sample_key_2, sample_key_4]"
  have ok: "dbPromise (details_step sample_api ?keys (item_details sample_database)) = Inr ()"
    by (simp add: sample_details_step)
  have c1: "length (filter (\<lambda>r. detail_item_id r = 1) (item_details sample_database)) = 2"
    by (simp add: sample_database_def sample_detail_1_def sample_detail_orphan_def
        sample_detail_bad_tag_def)
  have c4: "length (filter (\<lambda>r. detail_item_id r = 4) (item_details sample_database)) = 0"
    by (simp add: sample_database_def sample_detail_1_def sample_detail_orphan_def
        sample_detail_bad_tag_def)
  have s: "search (details_step sample_api ?keys (item_details sample_database)) ''Github''
      = Inr [sample_entry_1, sample_entry_1]"
  proof -
    have "title_matches ''Github'' sample_entry_1 = Inr True"
      by (simp add: title_matches_def sample_entry_1_def sample_key_1_def)
    moreover have "title_matches ''Github'' sample_entry_2 = Inr False"
      by (simp add: title_matches_def sample_entry_2_def sample_key_2_def)
    ultimately show ?thesis
      unfolding sample_details_step by (simp add: search_def)
  qed
  from index_is_per_detail_record [OF ok, of 1] index_is_per_detail_record [OF ok, of 4]
  show ?thesis
    using ok s by (simp add: sample_key_ids c1 c4)
qed

end
